theory Spec2Isabelle
  imports Main "HOL-Library.Word"
begin

section \<open>Common Go notions\<close>

text \<open>
  Go's \<^verbatim>\<open>int\<close> is a 64-bit two's-complement integer on the supported platforms:
  \<open>+\<close> and \<open>-\<close> wrap, and the value is read with \<open>sint\<close>.
\<close>

type_synonym go_int = "64 word"

text \<open>\<^verbatim>\<open>%d\<close> of \<^verbatim>\<open>fmt.Sprintf\<close>: decimal digits, with a leading minus sign.\<close>

definition digit_char :: "nat \<Rightarrow> char" where
  "digit_char d = ''0123456789'' ! d"

function nat_digits :: "nat \<Rightarrow> string" where
  "nat_digits n = (if n < 10 then [digit_char n]
                   else nat_digits (n div 10) @ [digit_char (n mod 10)])"
  by pat_completeness auto
termination
  by (relation "measure id") auto

definition fmt_d :: "go_int \<Rightarrow> string" where
  "fmt_d i = (if sint i < 0 then CHR ''-'' # nat_digits (nat (- sint i))
              else nat_digits (nat (sint i)))"

text \<open>\<^verbatim>\<open>filepath.Join\<close>: the non-empty elements separated by a slash. The lexical
  clean-up of the result (\<^verbatim>\<open>filepath.Clean\<close>) is not modelled.\<close>

fun filepath_Join :: "string list \<Rightarrow> string" where
  "filepath_Join [] = []"
| "filepath_Join (e # es) =
     (if e = [] then filepath_Join es
      else if filepath_Join es = [] then e
      else e @ ''/'' @ filepath_Join es)"


text \<open>\<^verbatim>\<open>filepath.Dir\<close>: the path without its last element.\<close>

definition filepath_Dir :: "string \<Rightarrow> string" where
  "filepath_Dir path =
     (if CHR ''/'' \<notin> set path then ''.''
      else let d = rev (drop 1 (dropWhile (\<lambda>c. c \<noteq> CHR ''/'') (rev path)))
           in if d = [] then ''/'' else d)"

section \<open>Files\<close>

text \<open>
  The packages below keep their state in JSON files. A file is modelled by what
  \<^verbatim>\<open>json.Unmarshal\<close> makes of its bytes for the struct that the reader decodes into:
  \<open>Doc v\<close> when the bytes decode to the value \<open>v\<close> (absent keys as zero values), and
  \<open>Malformed\<close> when decoding fails. For the state of the name pool and for a lock,
  \<^verbatim>\<open>json.Marshal\<close> followed by \<^verbatim>\<open>json.Unmarshal\<close> is taken to give back the exported
  fields of the struct (their strings are text, the instant of a lock is within the
  years that RFC 3339 can print); for a wisp the encoder is modelled with the wisp
  store. A file system maps a path to its content.

  Failures of the operating system other than a missing file are the flags of
  \<open>io_faults\<close>: a raised flag makes every call of that kind fail.
\<close>

datatype 'a content = Malformed | Doc 'a

type_synonym 'a files = "string \<rightharpoonup> 'a content"

record io_faults =
  read_fault :: bool
  write_fault :: bool
  mkdir_fault :: bool
  remove_fault :: bool
  rename_fault :: bool

definition no_faults :: "'e io_faults_scheme \<Rightarrow> bool" where
  "no_faults io \<longleftrightarrow>
     \<not> read_fault io \<and> \<not> write_fault io \<and> \<not> mkdir_fault io \<and> \<not> remove_fault io
     \<and> \<not> rename_fault io"

datatype os_error = ENOENT | EIO

definition os_ReadFile :: "'e io_faults_scheme \<Rightarrow> 'a files \<Rightarrow> string \<Rightarrow> os_error + 'a content" where
  "os_ReadFile io fs path =
     (if read_fault io then Inl EIO
      else case fs path of None \<Rightarrow> Inl ENOENT | Some c \<Rightarrow> Inr c)"

definition os_WriteFile ::
  "'e io_faults_scheme \<Rightarrow> 'a files \<Rightarrow> string \<Rightarrow> 'a content \<Rightarrow> os_error option \<times> 'a files" where
  "os_WriteFile io fs path c =
     (if write_fault io then (Some EIO, fs) else (None, fs(path \<mapsto> c)))"

definition os_Remove ::
  "'e io_faults_scheme \<Rightarrow> 'a files \<Rightarrow> string \<Rightarrow> os_error option \<times> 'a files" where
  "os_Remove io fs path =
     (if remove_fault io then (Some EIO, fs)
      else case fs path of None \<Rightarrow> (Some ENOENT, fs) | Some c \<Rightarrow> (None, fs(path := None)))"

definition os_Rename ::
  "'e io_faults_scheme \<Rightarrow> 'a files \<Rightarrow> string \<Rightarrow> string \<Rightarrow> os_error option \<times> 'a files" where
  "os_Rename io fs old new =
     (if rename_fault io then (Some EIO, fs)
      else case fs old of
             None \<Rightarrow> (Some ENOENT, fs)
           | Some c \<Rightarrow> (None, (fs(old := None))(new \<mapsto> c)))"

text \<open>
  Directories are not tracked: \<^verbatim>\<open>os.MkdirAll\<close> succeeds unless its flag is raised, and a
  write whose path lies in a directory that does not exist (a file name with a path
  separator in it, under a directory that was never made) is a failure of the write,
  that is, a raised \<open>write_fault\<close>.
\<close>

definition os_MkdirAll :: "'e io_faults_scheme \<Rightarrow> string \<Rightarrow> os_error option" where
  "os_MkdirAll io dir = (if mkdir_fault io then Some EIO else None)"

definition os_IsNotExist :: "os_error \<Rightarrow> bool" where
  "os_IsNotExist e \<longleftrightarrow> e = ENOENT"

text \<open>A file system without faults.\<close>

definition reliable_io :: io_faults where
  "reliable_io = \<lparr> read_fault = False, write_fault = False, mkdir_fault = False,
                    remove_fault = False, rename_fault = False \<rparr>"

section \<open>Identity pool: \<^verbatim>\<open>internal/polecat/namepool.go\<close>\<close>

definition DefaultPoolSize :: go_int where
  "DefaultPoolSize = 50"

definition DefaultTheme :: string where
  "DefaultTheme = ''mad-max''"

definition mad_max_names :: "string list" where
  "mad_max_names =
    [''furiosa'', ''nux'', ''slit'', ''rictus'', ''dementus'',
     ''capable'', ''toast'', ''dag'', ''cheedo'', ''valkyrie'',
     ''keeper'', ''morsov'', ''ace'', ''warboy'', ''imperator'',
     ''organic'', ''coma'', ''splendid'', ''angharad'', ''max'',
     ''immortan'', ''bullet'', ''toecutter'', ''goose'', ''nightrider'',
     ''glory'', ''scrotus'', ''chumbucket'', ''corpus'', ''dinki'',
     ''prime'', ''vuvalini'', ''rockryder'', ''wretched'', ''buzzard'',
     ''gastown'', ''bullet-farmer'', ''citadel'', ''wasteland'', ''fury'',
     ''road-warrior'', ''interceptor'', ''blackfinger'', ''wraith'', ''witness'',
     ''chrome'', ''shiny'', ''mediocre'', ''guzzoline'', ''aqua-cola'']"

definition minerals_names :: "string list" where
  "minerals_names =
    [''obsidian'', ''quartz'', ''jasper'', ''onyx'', ''opal'',
     ''topaz'', ''garnet'', ''ruby'', ''amber'', ''jade'',
     ''pearl'', ''flint'', ''granite'', ''basalt'', ''marble'',
     ''shale'', ''slate'', ''pyrite'', ''mica'', ''agate'',
     ''malachite'', ''turquoise'', ''lapis'', ''emerald'', ''sapphire'',
     ''diamond'', ''amethyst'', ''citrine'', ''zircon'', ''peridot'',
     ''coral'', ''jet'', ''moonstone'', ''sunstone'', ''bloodstone'',
     ''rhodonite'', ''sodalite'', ''hematite'', ''magnetite'', ''calcite'',
     ''fluorite'', ''selenite'', ''kyanite'', ''labradorite'', ''amazonite'',
     ''chalcedony'', ''carnelian'', ''aventurine'', ''chrysoprase'', ''heliodor'']"

definition wasteland_names :: "string list" where
  "wasteland_names =
    [''rust'', ''chrome'', ''nitro'', ''guzzle'', ''witness'',
     ''shiny'', ''fury'', ''thunder'', ''dust'', ''scavenger'',
     ''radrat'', ''ghoul'', ''mutant'', ''raider'', ''vault'',
     ''pipboy'', ''nuka'', ''brahmin'', ''deathclaw'', ''mirelurk'',
     ''synth'', ''institute'', ''enclave'', ''brotherhood'', ''minuteman'',
     ''railroad'', ''atom'', ''crater'', ''foundation'', ''refuge'',
     ''settler'', ''wanderer'', ''courier'', ''lone'', ''chosen'',
     ''tribal'', ''khan'', ''legion'', ''ncr'', ''ranger'',
     ''overseer'', ''sentinel'', ''paladin'', ''scribe'', ''initiate'',
     ''elder'', ''lancer'', ''knight'', ''squire'', ''proctor'']"

definition BuiltinThemes :: "string \<rightharpoonup> string list" where
  "BuiltinThemes = map_of
    [(''mad-max'', mad_max_names),
     (''minerals'', minerals_names),
     (''wasteland'', wasteland_names)]"

text \<open>
  The struct \<^verbatim>\<open>NamePool\<close>. The mutex is not modelled (one writer per pool). The Go map
  \<^verbatim>\<open>InUse\<close> is a partial map to \<open>bool\<close>; every pool built by a constructor or by
  \<^verbatim>\<open>Load\<close> has a non-nil map, so nil is not a separate value here.
\<close>

record NamePool =
  RigName :: string
  Theme :: string
  CustomNames :: "string list"
  InUse :: "string \<rightharpoonup> bool"
  OverflowNext :: go_int
  MaxSize :: go_int
  stateFile :: string

text \<open>Reading a Go \<^verbatim>\<open>map[string]bool\<close>: a missing key reads as \<^verbatim>\<open>false\<close>.\<close>

definition map_get :: "(string \<rightharpoonup> bool) \<Rightarrow> string \<Rightarrow> bool" where
  "map_get m k = (case m k of None \<Rightarrow> False | Some b \<Rightarrow> b)"

definition NewNamePool :: "string \<Rightarrow> string \<Rightarrow> NamePool" where
  "NewNamePool rigPath rigName =
     \<lparr> RigName = rigName,
       Theme = DefaultTheme,
       CustomNames = [],
       InUse = Map.empty,
       OverflowNext = DefaultPoolSize + 1,
       MaxSize = DefaultPoolSize,
       stateFile = filepath_Join [rigPath, ''.runtime'', ''namepool-state.json''] \<rparr>"

definition NewNamePoolWithConfig ::
  "string \<Rightarrow> string \<Rightarrow> string \<Rightarrow> string list \<Rightarrow> go_int \<Rightarrow> NamePool" where
  "NewNamePoolWithConfig rigPath rigName theme customNames maxSize =
     (let theme' = (if theme = [] then DefaultTheme else theme);
          maxSize' = (if sint maxSize \<le> 0 then DefaultPoolSize else maxSize)
      in \<lparr> RigName = rigName,
            Theme = theme',
            CustomNames = customNames,
            InUse = Map.empty,
            OverflowNext = maxSize' + 1,
            MaxSize = maxSize',
            stateFile = filepath_Join [rigPath, ''.runtime'', ''namepool-state.json''] \<rparr>)"

definition getNames :: "NamePool \<Rightarrow> string list" where
  "getNames p =
     (if length (CustomNames p) > 0 then CustomNames p
      else case BuiltinThemes (Theme p) of
             Some names \<Rightarrow> names
           | None \<Rightarrow> (case BuiltinThemes DefaultTheme of Some names \<Rightarrow> names | None \<Rightarrow> []))"

definition formatOverflowName :: "NamePool \<Rightarrow> go_int \<Rightarrow> string" where
  "formatOverflowName p seq = RigName p @ ''-'' @ fmt_d seq"

text \<open>
  The loop of \<^verbatim>\<open>Allocate\<close>:
  \<^verbatim>\<open>for i := 0; i < len(names) && i < p.MaxSize; i++\<close>, returning the first
  name that the map does not hold as \<^verbatim>\<open>true\<close>.
\<close>

function Allocate_loop :: "NamePool \<Rightarrow> string list \<Rightarrow> nat \<Rightarrow> string option" where
  "Allocate_loop p names i =
     (if i < length names \<and> int i < sint (MaxSize p) then
        (if \<not> map_get (InUse p) (names ! i) then Some (names ! i)
         else Allocate_loop p names (Suc i))
      else None)"
  by pat_completeness auto
termination
  by (relation "measure (\<lambda>(p, names, i). length names - i)") auto

declare Allocate_loop.simps [simp del]

text \<open>\<^verbatim>\<open>Allocate\<close> returns the name and the updated pool; its error result is always nil.\<close>

definition Allocate :: "NamePool \<Rightarrow> string \<times> NamePool" where
  "Allocate p =
     (case Allocate_loop p (getNames p) 0 of
        Some name \<Rightarrow> (name, p\<lparr>InUse := (InUse p)(name \<mapsto> True)\<rparr>)
      | None \<Rightarrow> (formatOverflowName p (OverflowNext p),
                 p\<lparr>OverflowNext := OverflowNext p + 1\<rparr>))"

definition isThemedName :: "NamePool \<Rightarrow> string \<Rightarrow> bool" where
  "isThemedName p name = list_ex (\<lambda>n. n = name) (getNames p)"

definition Release :: "NamePool \<Rightarrow> string \<Rightarrow> NamePool" where
  "Release p name =
     (if isThemedName p name then p\<lparr>InUse := (InUse p)(name := None)\<rparr> else p)"

definition IsPoolName :: "NamePool \<Rightarrow> string \<Rightarrow> bool" where
  "IsPoolName p name = isThemedName p name"

definition MarkInUse :: "NamePool \<Rightarrow> string \<Rightarrow> NamePool" where
  "MarkInUse p name =
     (if isThemedName p name then p\<lparr>InUse := (InUse p)(name \<mapsto> True)\<rparr> else p)"

fun Reconcile_loop :: "NamePool \<Rightarrow> string list \<Rightarrow> NamePool" where
  "Reconcile_loop p [] = p"
| "Reconcile_loop p (name # rest) = Reconcile_loop (MarkInUse p name) rest"

definition Reconcile :: "NamePool \<Rightarrow> string list \<Rightarrow> NamePool" where
  "Reconcile p existingPolecats = Reconcile_loop (p\<lparr>InUse := Map.empty\<rparr>) existingPolecats"

text \<open>
  \<^verbatim>\<open>SetTheme\<close>: an unknown theme is an error (\<open>Inl\<close> the message). Otherwise every key
  of the old map that is a name of the new theme is stored with \<^verbatim>\<open>true\<close>, and the custom
  names are cleared.
\<close>

definition SetTheme :: "NamePool \<Rightarrow> string \<Rightarrow> string + NamePool" where
  "SetTheme p theme =
     (case BuiltinThemes theme of
        None \<Rightarrow> Inl (''unknown theme: '' @ theme @ '' (available: mad-max, minerals, wasteland)'')
      | Some newNames \<Rightarrow>
          Inr (p\<lparr> Theme := theme,
                  InUse := (\<lambda>name. case InUse p name of
                                      None \<Rightarrow> None
                                    | Some _ \<Rightarrow> if list_ex (\<lambda>n. n = name) newNames
                                              then Some True else None),
                  CustomNames := [] \<rparr>))"

definition Reset :: "NamePool \<Rightarrow> NamePool" where
  "Reset p = p\<lparr>InUse := Map.empty, OverflowNext := MaxSize p + 1\<rparr>"

text \<open>
  Position \<open>i\<close> of the theme list is a candidate of \<^verbatim>\<open>Allocate\<close>: it is among the
  first \<^verbatim>\<open>MaxSize\<close> names and the map does not hold its name as \<^verbatim>\<open>true\<close>.
\<close>

definition slot_free :: "NamePool \<Rightarrow> nat \<Rightarrow> bool" where
  "slot_free p i \<longleftrightarrow>
     i < length (getNames p) \<and> int i < sint (MaxSize p) \<and>
     \<not> map_get (InUse p) (getNames p ! i)"

text \<open>A run of pool operations; the names handed out by the allocations, in order.\<close>

datatype pool_op = DoAllocate | DoRelease string

fun run_ops :: "NamePool \<Rightarrow> pool_op list \<Rightarrow> string list \<times> NamePool" where
  "run_ops p [] = ([], p)"
| "run_ops p (DoAllocate # ops) =
     (case Allocate p of (name, p') \<Rightarrow>
        (case run_ops p' ops of (names, p'') \<Rightarrow> (name # names, p'')))"
| "run_ops p (DoRelease name # ops) = run_ops (Release p name) ops"

fun count_allocs :: "pool_op list \<Rightarrow> nat" where
  "count_allocs [] = 0"
| "count_allocs (DoAllocate # ops) = Suc (count_allocs ops)"
| "count_allocs (DoRelease name # ops) = count_allocs ops"

fun released :: "pool_op list \<Rightarrow> string list" where
  "released [] = []"
| "released (DoAllocate # ops) = released ops"
| "released (DoRelease name # ops) = name # released ops"

definition is_digit :: "char \<Rightarrow> bool" where
  "is_digit c \<longleftrightarrow> c \<in> set ''0123456789''"

subsection \<open>Example pools\<close>

text \<open>Concrete pools, named so that the theorems instantiated at them stay readable.\<close>

definition pool_fresh :: NamePool where
  "pool_fresh = NewNamePool ''/town/rig'' ''rig''"

definition pool_one :: NamePool where
  "pool_one = (NewNamePool ''/town/rig'' ''rig'')\<lparr>InUse := [''furiosa'' \<mapsto> True]\<rparr>"

definition pool_alpha_full :: NamePool where
  "pool_alpha_full =
     (NewNamePoolWithConfig ''/town/rig'' ''rig'' [] [''alpha''] 1)\<lparr>InUse := [''alpha'' \<mapsto> True]\<rparr>"

definition pool_three_full :: NamePool where
  "pool_three_full =
     (NewNamePoolWithConfig ''/town/gastown'' ''gastown'' ''mad-max'' [] 3)
       \<lparr>InUse := [''furiosa'' \<mapsto> True, ''nux'' \<mapsto> True, ''slit'' \<mapsto> True]\<rparr>"

definition pool_two :: NamePool where
  "pool_two =
     (NewNamePool ''/town/rig'' ''rig'')\<lparr>InUse := [''furiosa'' \<mapsto> True, ''chrome'' \<mapsto> True]\<rparr>"

definition pool_two_wasteland :: NamePool where
  "pool_two_wasteland =
     (NewNamePool ''/town/rig'' ''rig'')
       \<lparr>Theme := ''wasteland'', InUse := [''chrome'' \<mapsto> True], CustomNames := []\<rparr>"

definition pool_custom :: NamePool where
  "pool_custom = NewNamePoolWithConfig ''/town/rig'' ''rig'' [] [''alpha'', ''beta''] 4"

subsection \<open>\<^verbatim>\<open>Save\<close> and \<^verbatim>\<open>Load\<close>\<close>

text \<open>
  \<^verbatim>\<open>Save\<close> writes the exported fields of the pool; the path \<^verbatim>\<open>stateFile\<close> is not
  exported and decodes as the empty string. Each operation returns its error, if any,
  and the new state.
\<close>

definition Save :: "'e io_faults_scheme \<Rightarrow> NamePool files \<Rightarrow> NamePool \<Rightarrow> os_error option \<times> NamePool files" where
  "Save io fs p =
     (case os_MkdirAll io (filepath_Dir (stateFile p)) of
        Some err \<Rightarrow> (Some err, fs)
      | None \<Rightarrow> os_WriteFile io fs (stateFile p) (Doc (p\<lparr>stateFile := []\<rparr>)))"





section \<open>Identity lock: package \<^verbatim>\<open>lock\<close>\<close>

text \<open>An instant (\<^verbatim>\<open>time.Time\<close>) is a count of nanoseconds.\<close>

record LockInfo =
  PID :: go_int
  AcquiredAt :: int
  SessionID :: string
  Hostname :: string

text \<open>
  What the package asks of the operating system: the process id, the outcome of sending
  signal 0 to a process (\<^verbatim>\<open>os.FindProcess\<close> never fails on Unix), the clock, the host
  name, and the faults of the file system.
\<close>

record os_env = io_faults +
  os_Getpid :: go_int
  signal0_ok :: "go_int \<Rightarrow> bool"
  time_Now :: int
  os_Hostname :: string

text \<open>
  The errors of the package. \<^verbatim>\<open>ErrLocked\<close> is returned wrapped in a message with the
  PID, the session and the acquisition time of the lock that was read.
\<close>

datatype lock_error =
    ErrLocked go_int string int
  | ErrNotLocked
  | ErrInvalidLock
  | ReadingLockFile os_error
  | RemovingLockFile os_error
  | RemovingStaleLock lock_error
  | CreatingLockDirectory os_error
  | WritingLockFile os_error

record Lock =
  workerDir :: string
  lockPath :: string

definition New :: "string \<Rightarrow> Lock" where
  "New dir = \<lparr> workerDir = dir, lockPath = filepath_Join [dir, ''.runtime'', ''agent.lock''] \<rparr>"

definition processExists :: "os_env \<Rightarrow> go_int \<Rightarrow> bool" where
  "processExists env pid = (if sint pid \<le> 0 then False else signal0_ok env pid)"

definition IsStale_lock :: "os_env \<Rightarrow> LockInfo \<Rightarrow> bool" where
  "IsStale_lock env info = (\<not> processExists env (PID info))"

definition Release_lock :: "os_env \<Rightarrow> LockInfo files \<Rightarrow> Lock \<Rightarrow> lock_error option \<times> LockInfo files" where
  "Release_lock env fs l =
     (case os_Remove env fs (lockPath l) of
        (Some err, fs') \<Rightarrow>
          (if \<not> os_IsNotExist err then (Some (RemovingLockFile err), fs') else (None, fs'))
      | (None, fs') \<Rightarrow> (None, fs'))"

definition Read_lock :: "os_env \<Rightarrow> LockInfo files \<Rightarrow> Lock \<Rightarrow> lock_error + LockInfo" where
  "Read_lock env fs l =
     (case os_ReadFile env fs (lockPath l) of
        Inl err \<Rightarrow> (if os_IsNotExist err then Inl ErrNotLocked else Inl (ReadingLockFile err))
      | Inr Malformed \<Rightarrow> Inl ErrInvalidLock
      | Inr (Doc info) \<Rightarrow> Inr info)"

definition write_lock ::
  "os_env \<Rightarrow> LockInfo files \<Rightarrow> Lock \<Rightarrow> string \<Rightarrow> lock_error option \<times> LockInfo files" where
  "write_lock env fs l sessionID =
     (case os_MkdirAll env (filepath_Dir (lockPath l)) of
        Some err \<Rightarrow> (Some (CreatingLockDirectory err), fs)
      | None \<Rightarrow>
          (let info = \<lparr> PID = os_Getpid env, AcquiredAt = time_Now env,
                        SessionID = sessionID, Hostname = os_Hostname env \<rparr>
           in case os_WriteFile env fs (lockPath l) (Doc info) of
                (Some err, fs') \<Rightarrow> (Some (WritingLockFile err), fs')
              | (None, fs') \<Rightarrow> (None, fs')))"

definition Acquire ::
  "os_env \<Rightarrow> LockInfo files \<Rightarrow> Lock \<Rightarrow> string \<Rightarrow> lock_error option \<times> LockInfo files" where
  "Acquire env fs l sessionID =
     (case Read_lock env fs l of
        Inr info \<Rightarrow>
          (if IsStale_lock env info then
             (case Release_lock env fs l of
                (Some err, fs') \<Rightarrow> (Some (RemovingStaleLock err), fs')
              | (None, fs') \<Rightarrow> write_lock env fs' l sessionID)
           else if PID info = os_Getpid env then write_lock env fs l sessionID
           else (Some (ErrLocked (PID info) (SessionID info) (AcquiredAt info)), fs))
      | Inl err \<Rightarrow> write_lock env fs l sessionID)"

text \<open>The lock that a successful \<^verbatim>\<open>Acquire\<close> writes.\<close>

definition fresh_lock :: "os_env \<Rightarrow> string \<Rightarrow> LockInfo" where
  "fresh_lock env sessionID =
     \<lparr> PID = os_Getpid env, AcquiredAt = time_Now env,
       SessionID = sessionID, Hostname = os_Hostname env \<rparr>"

subsection \<open>An example host\<close>

definition host :: os_env where
  "host = \<lparr> read_fault = False, write_fault = False, mkdir_fault = False,
            remove_fault = False, rename_fault = False,
            os_Getpid = 4242, signal0_ok = (\<lambda>pid. pid = 4242 \<or> pid = 777),
            time_Now = 1700000000000000000, os_Hostname = ''gastown-host'' \<rparr>"

definition toast_lock :: Lock where
  "toast_lock = New ''/town/rig/polecats/toast''"

definition lock_of :: "go_int \<Rightarrow> LockInfo" where
  "lock_of pid = \<lparr> PID = pid, AcquiredAt = 1600000000000000000,
                   SessionID = ''gt-rig-toast'', Hostname = ''gastown-host'' \<rparr>"

section \<open>Keepalive: package \<^verbatim>\<open>keepalive\<close>\<close>

text \<open>
  A \<^verbatim>\<open>time.Duration\<close> is a count of nanoseconds in an \<^verbatim>\<open>int64\<close>. An instant is a
  count of nanoseconds on one time line. \<^verbatim>\<open>time.Since(t)\<close> is \<^verbatim>\<open>time.Now().Sub(t)\<close>,
  and \<^verbatim>\<open>Sub\<close> saturates at the least and the greatest duration. The reading of the
  clock is the parameter \<open>now\<close> of every function that calls \<^verbatim>\<open>time.Since\<close>.
\<close>

definition Minute :: int where
  "Minute = 60 * 1000000000"

definition Hour :: int where
  "Hour = 60 * Minute"

definition maxDuration :: int where
  "maxDuration = 2 ^ 63 - 1"

definition minDuration :: int where
  "minDuration = - (2 ^ 63)"

definition time_Sub :: "int \<Rightarrow> int \<Rightarrow> int" where
  "time_Sub t u =
     (if t - u > maxDuration then maxDuration
      else if t - u < minDuration then minDuration
      else t - u)"

record State =
  LastCommand :: string
  Timestamp :: int

text \<open>The receiver is a pointer: \<open>None\<close> is the nil pointer.\<close>

definition Age :: "int \<Rightarrow> State option \<Rightarrow> int" where
  "Age now s = (case s of None \<Rightarrow> 24 * Hour * 365 | Some st \<Rightarrow> time_Sub now (Timestamp st))"

definition IsFresh :: "int \<Rightarrow> State option \<Rightarrow> bool" where
  "IsFresh now s \<longleftrightarrow> s \<noteq> None \<and> Age now s < 2 * Minute"

definition IsStale :: "int \<Rightarrow> State option \<Rightarrow> bool" where
  "IsStale now s =
     (if s = None then False
      else (let age = Age now s in age \<ge> 2 * Minute \<and> age < 5 * Minute))"

definition IsVeryStale :: "int \<Rightarrow> State option \<Rightarrow> bool" where
  "IsVeryStale now s \<longleftrightarrow> s = None \<or> Age now s \<ge> 5 * Minute"

text \<open>How many of the three classifications hold at one reading of the clock.\<close>

definition freshness_count :: "int \<Rightarrow> State option \<Rightarrow> nat" where
  "freshness_count now s =
     (if IsFresh now s then 1 else 0) + (if IsStale now s then 1 else 0)
       + (if IsVeryStale now s then 1 else 0)"

section \<open>Wisp store: package \<^verbatim>\<open>wisp\<close>\<close>

type_synonym WispType = string

definition TypeSlungWork :: WispType where
  "TypeSlungWork = ''slung-work''"

definition TypePatrolCycle :: WispType where
  "TypePatrolCycle = ''patrol-cycle''"

definition WispDir :: string where
  "WispDir = ''.beads-wisp''"

definition HookPrefix :: string where
  "HookPrefix = ''hook-''"

definition HookSuffix :: string where
  "HookSuffix = ''.json''"

text \<open>
  \<^verbatim>\<open>SlungWork\<close> embeds the header \<^verbatim>\<open>Wisp\<close>; JSON flattens the embedded fields. The
  functions take a pointer to a \<^verbatim>\<open>SlungWork\<close>, which is taken not to be nil. A string
  is its bytes. A \<^verbatim>\<open>time.Time\<close> is its instant, in nanoseconds since the Unix epoch, read
  in UTC: its location and its monotonic clock reading, which no JSON round trip keeps,
  are not modelled.
\<close>

record Wisp =
  Type :: WispType
  CreatedAt :: int
  CreatedBy :: string

record SlungWork = Wisp +
  BeadID :: string
  Context :: string
  Subject :: string

subsection \<open>The JSON encoding of a wisp\<close>

text \<open>
  \<^verbatim>\<open>utf8.DecodeRuneInString\<close>: the number of bytes of the UTF-8 encoding that the string
  begins with, and \<open>0\<close> when it begins with none (the decoder's \<^verbatim>\<open>RuneError\<close> of width
  1): a byte that cannot start an encoding, a missing or wrong continuation byte, an
  overlong form, a surrogate half, a code point above \<^verbatim>\<open>U+10FFFF\<close>.
\<close>

definition byte :: "char \<Rightarrow> nat" where
  "byte c = of_char c"

definition in_range :: "nat \<Rightarrow> nat \<Rightarrow> char \<Rightarrow> bool" where
  "in_range lo hi c \<longleftrightarrow> lo \<le> byte c \<and> byte c \<le> hi"

fun DecodeRune_size :: "string \<Rightarrow> nat" where
  "DecodeRune_size [] = 0"
| "DecodeRune_size (c # cs) =
     (let b = byte c in
      if b < 0x80 then 1
      else if 0xC2 \<le> b \<and> b \<le> 0xDF then
        (case cs of
           c1 # _ \<Rightarrow> if in_range 0x80 0xBF c1 then 2 else 0
         | _ \<Rightarrow> 0)
      else if 0xE0 \<le> b \<and> b \<le> 0xEF then
        (case cs of
           c1 # c2 # _ \<Rightarrow>
             if in_range (if b = 0xE0 then 0xA0 else 0x80) (if b = 0xED then 0x9F else 0xBF) c1
                \<and> in_range 0x80 0xBF c2
             then 3 else 0
         | _ \<Rightarrow> 0)
      else if 0xF0 \<le> b \<and> b \<le> 0xF4 then
        (case cs of
           c1 # c2 # c3 # _ \<Rightarrow>
             if in_range (if b = 0xF0 then 0x90 else 0x80) (if b = 0xF4 then 0x8F else 0xBF) c1
                \<and> in_range 0x80 0xBF c2 \<and> in_range 0x80 0xBF c3
             then 4 else 0
         | _ \<Rightarrow> 0)
      else 0)"

text \<open>
  \<^verbatim>\<open>utf8.ValidString\<close>: the string is a sequence of encodings. The first argument counts
  the bytes that are left of the encoding being read.
\<close>

fun valid_from :: "nat \<Rightarrow> string \<Rightarrow> bool" where
  "valid_from k [] = True"
| "valid_from (Suc k) (c # cs) = valid_from k cs"
| "valid_from 0 (c # cs) =
     (case DecodeRune_size (c # cs) of 0 \<Rightarrow> False | Suc n \<Rightarrow> valid_from n cs)"

definition utf8_ValidString :: "string \<Rightarrow> bool" where
  "utf8_ValidString s = valid_from 0 s"

text \<open>
  A string after \<^verbatim>\<open>json.Marshal\<close> and \<^verbatim>\<open>json.Unmarshal\<close>. The encoder walks the string
  by encodings and writes \<^verbatim>\<open>\ufffd\<close> for every byte that begins none; the decoder reads
  that escape as the three bytes of \<^verbatim>\<open>U+FFFD\<close>. Every other escape is read back as the
  bytes that it was written for.
\<close>

definition RuneError :: string where
  "RuneError = [CHR 0xEF, CHR 0xBF, CHR 0xBD]"

fun coerce_from :: "nat \<Rightarrow> string \<Rightarrow> string" where
  "coerce_from k [] = []"
| "coerce_from (Suc k) (c # cs) = c # coerce_from k cs"
| "coerce_from 0 (c # cs) =
     (case DecodeRune_size (c # cs) of
        0 \<Rightarrow> RuneError @ coerce_from 0 cs
      | Suc n \<Rightarrow> c # coerce_from n cs)"

definition json_string :: "string \<Rightarrow> string" where
  "json_string s = coerce_from 0 s"

text \<open>
  \<^verbatim>\<open>Time.MarshalJSON\<close> returns an error for a year outside of 0 to 9999; within them the
  text of RFC 3339 keeps the instant to the nanosecond.
\<close>

definition year_0 :: int where
  "year_0 = - 62167219200 * 1000000000"

definition year_10000 :: int where
  "year_10000 = 253402300800 * 1000000000"

definition time_MarshalJSON_ok :: "int \<Rightarrow> bool" where
  "time_MarshalJSON_ok t \<longleftrightarrow> year_0 \<le> t \<and> t < year_10000"

text \<open>
  What \<^verbatim>\<open>json.Unmarshal\<close> makes of the bytes that \<^verbatim>\<open>json.MarshalIndent\<close> writes for a
  \<^verbatim>\<open>SlungWork\<close>; \<open>None\<close> when the encoder returns an error.
\<close>

definition json_SlungWork :: "SlungWork \<Rightarrow> SlungWork" where
  "json_SlungWork sw =
     sw\<lparr> Type := json_string (Type sw), CreatedBy := json_string (CreatedBy sw),
         BeadID := json_string (BeadID sw), Context := json_string (Context sw),
         Subject := json_string (Subject sw) \<rparr>"

definition json_MarshalIndent :: "SlungWork \<Rightarrow> SlungWork option" where
  "json_MarshalIndent sw =
     (if time_MarshalJSON_ok (CreatedAt sw) then Some (json_SlungWork sw) else None)"

text \<open>The strings of a wisp are valid UTF-8.\<close>

definition utf8_fields :: "SlungWork \<Rightarrow> bool" where
  "utf8_fields sw \<longleftrightarrow>
     utf8_ValidString (Type sw) \<and> utf8_ValidString (CreatedBy sw)
     \<and> utf8_ValidString (BeadID sw) \<and> utf8_ValidString (Context sw)
     \<and> utf8_ValidString (Subject sw)"

subsection \<open>Reading and writing hooks\<close>

datatype wisp_error =
    ErrNoWispDir
  | ErrNoHook
  | ErrInvalidWisp
  | MarshalJSON
  | CreateWispDir os_error
  | WriteTemp os_error
  | RenameTemp os_error
  | ReadHookFailed os_error
  | RemoveHookFailed os_error

definition NewSlungWork :: "int \<Rightarrow> string \<Rightarrow> string \<Rightarrow> SlungWork" where
  "NewSlungWork now beadID createdBy =
     \<lparr> Type = TypeSlungWork, CreatedAt = now, CreatedBy = createdBy,
       BeadID = beadID, Context = [], Subject = [] \<rparr>"

definition HookFilename :: "string \<Rightarrow> string" where
  "HookFilename agent = HookPrefix @ agent @ HookSuffix"

definition EnsureDir :: "'e io_faults_scheme \<Rightarrow> string \<Rightarrow> wisp_error + string" where
  "EnsureDir io root =
     (let dir = filepath_Join [root, WispDir]
      in case os_MkdirAll io dir of
           Some err \<Rightarrow> Inl (CreateWispDir err)
         | None \<Rightarrow> Inr dir)"

definition WispPath :: "string \<Rightarrow> string \<Rightarrow> string" where
  "WispPath root filename = filepath_Join [root, WispDir, filename]"

definition HookPath :: "string \<Rightarrow> string \<Rightarrow> string" where
  "HookPath root agent = WispPath root (HookFilename agent)"

text \<open>
  \<^verbatim>\<open>writeJSON\<close>: encode the value, write a temporary file, then rename it over the path.
  The encoder of the value's type is the argument \<open>marshal\<close>.
\<close>

definition writeJSON ::
  "'e io_faults_scheme \<Rightarrow> 'a files \<Rightarrow> string \<Rightarrow> ('a \<Rightarrow> 'a option) \<Rightarrow> 'a
     \<Rightarrow> wisp_error option \<times> 'a files" where
  "writeJSON io fs path marshal v =
     (case marshal v of
        None \<Rightarrow> (Some MarshalJSON, fs)
      | Some data \<Rightarrow>
          (let tmp = path @ ''.tmp''
           in case os_WriteFile io fs tmp (Doc data) of
                (Some err, fs') \<Rightarrow> (Some (WriteTemp err), fs')
              | (None, fs') \<Rightarrow>
                  (case os_Rename io fs' tmp path of
                     (Some err, fs'') \<Rightarrow> (Some (RenameTemp err), snd (os_Remove io fs'' tmp))
                   | (None, fs'') \<Rightarrow> (None, fs''))))"

definition WriteSlungWork ::
  "'e io_faults_scheme \<Rightarrow> SlungWork files \<Rightarrow> string \<Rightarrow> string \<Rightarrow> SlungWork
     \<Rightarrow> wisp_error option \<times> SlungWork files" where
  "WriteSlungWork io fs root agent sw =
     (case EnsureDir io root of
        Inl err \<Rightarrow> (Some err, fs)
      | Inr dir \<Rightarrow>
          writeJSON io fs (filepath_Join [dir, HookFilename agent]) json_MarshalIndent sw)"

definition ReadHook ::
  "'e io_faults_scheme \<Rightarrow> SlungWork files \<Rightarrow> string \<Rightarrow> string \<Rightarrow> wisp_error + SlungWork" where
  "ReadHook io fs root agent =
     (case os_ReadFile io fs (HookPath root agent) of
        Inl err \<Rightarrow> (if os_IsNotExist err then Inl ErrNoHook else Inl (ReadHookFailed err))
      | Inr Malformed \<Rightarrow> Inl ErrInvalidWisp
      | Inr (Doc sw) \<Rightarrow> (if Type sw \<noteq> TypeSlungWork then Inl ErrInvalidWisp else Inr sw))"

definition BurnHook ::
  "'e io_faults_scheme \<Rightarrow> SlungWork files \<Rightarrow> string \<Rightarrow> string
     \<Rightarrow> wisp_error option \<times> SlungWork files" where
  "BurnHook io fs root agent =
     (case os_Remove io fs (HookPath root agent) of
        (Some err, fs') \<Rightarrow>
          (if os_IsNotExist err then (None, fs') else (Some (RemoveHookFailed err), fs'))
      | (None, fs') \<Rightarrow> (None, fs'))"

definition HasHook :: "SlungWork files \<Rightarrow> string \<Rightarrow> string \<Rightarrow> bool" where
  "HasHook fs root agent \<longleftrightarrow> fs (HookPath root agent) \<noteq> None"

definition toast_work :: SlungWork where
  "toast_work = (NewSlungWork 1700000000000000000 ''gt-abc12'' ''crew/joe'')
                  \<lparr>Context := ''fix the flaky test'', Subject := ''handoff''\<rparr>"

text \<open>The same work with a context that is one byte, not UTF-8, and with a late date.\<close>

definition garbled_work :: SlungWork where
  "garbled_work = toast_work\<lparr>Context := [CHR 0xFF]\<rparr>"

definition late_work :: SlungWork where
  "late_work = toast_work\<lparr>CreatedAt := year_10000\<rparr>"

section \<open>Worker manager: \<^verbatim>\<open>internal/polecat/manager.go\<close>\<close>

text \<open>
  Modelled from the spec: the type \<^verbatim>\<open>git.UncommittedWorkStatus\<close> and its method
  \<^verbatim>\<open>Clean\<close> belong to the package \<^verbatim>\<open>internal/git\<close>, which is not among the sources.
  The spec speaks of a payload enumerating stashes, unpushed commits and uncommitted
  changes, and of a worktree that "has unstashed changes / stashes / unpushed commits";
  the manager reads the fields \<^verbatim>\<open>StashCount\<close> and \<^verbatim>\<open>UnpushedCommits\<close>. A status is clean
  when it has none of the three.
\<close>

record UncommittedWorkStatus =
  HasUncommittedChanges :: bool
  StashCount :: go_int
  UnpushedCommits :: go_int

definition Clean :: "UncommittedWorkStatus \<Rightarrow> bool" where
  "Clean st \<longleftrightarrow> \<not> HasUncommittedChanges st \<and> StashCount st = 0 \<and> UnpushedCommits st = 0"

datatype manager_error =
    ErrPolecatExists
  | ErrPolecatNotFound
  | UncommittedWorkError string UncommittedWorkStatus
  | RemovingPolecatDir
  | CheckingBranchExistence
  | CreatingWorktreeExistingBranch
  | CreatingFreshWorktree

datatype polecat_state = StateIdle | StateWorking | StateDone | StateStuck

record Polecat =
  Name :: string
  Rig :: string
  State :: polecat_state
  ClonePath :: string
  Branch :: string
  Polecat_CreatedAt :: int
  Polecat_UpdatedAt :: int

text \<open>
  What the manager asks of git and of the operating system during one call: the outcome
  of \<^verbatim>\<open>CheckUncommittedWork\<close> in the worktree (\<open>Inl\<close> when git fails), whether
  \<^verbatim>\<open>WorktreeRemove\<close>, \<^verbatim>\<open>os.RemoveAll\<close>, \<^verbatim>\<open>WorktreeAdd\<close> and \<^verbatim>\<open>WorktreeAddExisting\<close> fail,
  the outcome of \<^verbatim>\<open>BranchExists\<close> after the branch was deleted, and the clock.
\<close>

record git_outcomes =
  CheckUncommittedWork :: "unit + UncommittedWorkStatus"
  WorktreeRemove_fails :: bool
  RemoveAll_fails :: bool
  BranchExists :: "unit + bool"
  WorktreeAdd_fails :: bool
  WorktreeAddExisting_fails :: bool
  clock :: int

text \<open>
  The manager's state: the rig, the names whose directories exist under
  \<^verbatim>\<open>polecats/\<close>, the name pool and the files that hold the pool's state.
\<close>

record Manager =
  rig_Name :: string
  rig_Path :: string
  polecat_dirs :: "string set"
  namePool :: NamePool
  pool_files :: "NamePool files"

definition polecatDir :: "Manager \<Rightarrow> string \<Rightarrow> string" where
  "polecatDir m name = filepath_Join [rig_Path m, ''polecats'', name]"

definition exists_polecat :: "Manager \<Rightarrow> string \<Rightarrow> bool" where
  "exists_polecat m name \<longleftrightarrow> name \<in> polecat_dirs m"

text \<open>
  \<^verbatim>\<open>RemoveWithOptions\<close>. The check of uncommitted work is skipped when \<^verbatim>\<open>nuclear\<close>;
  with \<^verbatim>\<open>force\<close> a status that is not clean blocks only on stashes or unpushed commits.
  The errors of \<^verbatim>\<open>WorktreePrune\<close> and of saving the pool are dropped, as in the source.
\<close>

definition RemoveWithOptions ::
  "git_outcomes \<Rightarrow> 'e io_faults_scheme \<Rightarrow> Manager \<Rightarrow> string \<Rightarrow> bool \<Rightarrow> bool
     \<Rightarrow> manager_error option \<times> Manager" where
  "RemoveWithOptions g io m name force nuclear =
     (if \<not> exists_polecat m name then (Some ErrPolecatNotFound, m)
      else
        (case (if \<not> nuclear then
                 (case CheckUncommittedWork g of
                    Inr status \<Rightarrow>
                      (if \<not> Clean status then
                         (if force then
                            (if 0 < sint (StashCount status) \<or> 0 < sint (UnpushedCommits status)
                             then Some (UncommittedWorkError name status) else None)
                          else Some (UncommittedWorkError name status))
                       else None)
                  | Inl err \<Rightarrow> None)
               else None) of
           Some err \<Rightarrow> (Some err, m)
         | None \<Rightarrow>
             (if WorktreeRemove_fails g \<and> RemoveAll_fails g then (Some RemovingPolecatDir, m)
              else
                (let pool' = Release (namePool m) name
                 in (None, m\<lparr> polecat_dirs := polecat_dirs m - {name},
                               namePool := pool',
                               pool_files := snd (Save io (pool_files m) pool') \<rparr>)))))"

definition Remove :: 
  "git_outcomes \<Rightarrow> 'e io_faults_scheme \<Rightarrow> Manager \<Rightarrow> string \<Rightarrow> bool
     \<Rightarrow> manager_error option \<times> Manager" where
  "Remove g io m name force = RemoveWithOptions g io m name force False"

text \<open>
  \<^verbatim>\<open>Recreate\<close>. The check of uncommitted work runs only when \<^verbatim>\<open>force\<close> is false. Once
  the worktree is removed the directory is gone, also when a later step fails. The name
  is not released.
\<close>

definition Recreate ::
  "git_outcomes \<Rightarrow> Manager \<Rightarrow> string \<Rightarrow> bool \<Rightarrow> (manager_error + Polecat) \<times> Manager" where
  "Recreate g m name force =
     (if \<not> exists_polecat m name then (Inl ErrPolecatNotFound, m)
      else
        (case (if \<not> force then
                 (case CheckUncommittedWork g of
                    Inr status \<Rightarrow>
                      (if \<not> Clean status then Some (UncommittedWorkError name status) else None)
                  | Inl err \<Rightarrow> None)
               else None) of
           Some err \<Rightarrow> (Inl err, m)
         | None \<Rightarrow>
             (if WorktreeRemove_fails g \<and> RemoveAll_fails g then (Inl RemovingPolecatDir, m)
              else
                (let gone = m\<lparr>polecat_dirs := polecat_dirs m - {name}\<rparr>
                 in case BranchExists g of
                      Inl err \<Rightarrow> (Inl CheckingBranchExistence, gone)
                    | Inr branchExists \<Rightarrow>
                        (if branchExists \<and> WorktreeAddExisting_fails g
                           then (Inl CreatingWorktreeExistingBranch, gone)
                         else if \<not> branchExists \<and> WorktreeAdd_fails g
                           then (Inl CreatingFreshWorktree, gone)
                         else
                           (Inr \<lparr> Name = name, Rig = rig_Name m, State = StateIdle,
                                  ClonePath = polecatDir m name,
                                  Branch = ''polecat/'' @ name,
                                  Polecat_CreatedAt = clock g, Polecat_UpdatedAt = clock g \<rparr>,
                            m))))))"

subsection \<open>An example rig\<close>

definition git_ok :: "UncommittedWorkStatus \<Rightarrow> git_outcomes" where
  "git_ok st = \<lparr> CheckUncommittedWork = Inr st, WorktreeRemove_fails = False,
                 RemoveAll_fails = False, BranchExists = Inr False,
                 WorktreeAdd_fails = False, WorktreeAddExisting_fails = False,
                 clock = 1700000000000000000 \<rparr>"

definition rig_one :: Manager where
  "rig_one = \<lparr> rig_Name = ''rig'', rig_Path = ''/town/rig'', polecat_dirs = {''furiosa''},
               namePool = pool_one, pool_files = Map.empty \<rparr>"

definition only_changes :: UncommittedWorkStatus where
  "only_changes = \<lparr> HasUncommittedChanges = True, StashCount = 0, UnpushedCommits = 0 \<rparr>"

definition one_stash :: UncommittedWorkStatus where
  "one_stash = \<lparr> HasUncommittedChanges = False, StashCount = 1, UnpushedCommits = 0 \<rparr>"

definition fresh_furiosa :: Polecat where
  "fresh_furiosa = \<lparr> Name = ''furiosa'', Rig = ''rig'', State = StateIdle,
                     ClonePath = ''/town/rig/polecats/furiosa'', Branch = ''polecat/furiosa'',
                     Polecat_CreatedAt = 1700000000000000000,
                     Polecat_UpdatedAt = 1700000000000000000 \<rparr>"

definition two_unpushed :: UncommittedWorkStatus where
  "two_unpushed = \<lparr> HasUncommittedChanges = False, StashCount = 0, UnpushedCommits = 2 \<rparr>"

section \<open>Merge engine: package \<^verbatim>\<open>refinery\<close>\<close>

record MergeQueueConfig =
  Enabled :: bool
  TargetBranch :: string
  IntegrationBranches :: bool
  OnConflict :: string
  RunTests :: bool
  TestCommand :: string
  DeleteMergedBranches :: bool
  RetryFlakyTests :: go_int
  PollInterval :: int
  MaxConcurrent :: go_int

definition DefaultMergeQueueConfig :: MergeQueueConfig where
  "DefaultMergeQueueConfig =
     \<lparr> Enabled = True, TargetBranch = ''main'', IntegrationBranches = True,
       OnConflict = ''assign_back'', RunTests = True, TestCommand = [],
       DeleteMergedBranches = True, RetryFlakyTests = 1,
       PollInterval = 30 * 1000000000, MaxConcurrent = 1 \<rparr>"

record ProcessResult =
  Success :: bool
  MergeCommit :: string
  Error :: string
  Conflict :: bool
  TestsFailed :: bool

text \<open>The zero value of \<^verbatim>\<open>ProcessResult\<close>: what a composite literal leaves unset.\<close>

definition no_result :: ProcessResult where
  "no_result = \<lparr> Success = False, MergeCommit = [], Error = [], Conflict = False,
                  TestsFailed = False \<rparr>"

text \<open>
  One run of the test command under the context: whether \<^verbatim>\<open>cmd.Run\<close> returned nil, the
  text of its error otherwise, and whether \<^verbatim>\<open>ctx.Err()\<close> is set when it has returned.
\<close>

record run_outcome =
  run_ok :: bool
  run_error :: string
  ctx_canceled :: bool

text \<open>
  The loop of \<^verbatim>\<open>runTests\<close>, from \<^verbatim>\<open>attempt\<close> on; \<open>runs k\<close> is the outcome of the
  \<open>k\<close>-th run of the command. Beside the result the model returns how many times the
  command was run. The counter is a natural number: it does not reach the end of Go's
  \<^verbatim>\<open>int\<close>.
\<close>

function runTests_loop ::
  "(nat \<Rightarrow> run_outcome) \<Rightarrow> go_int \<Rightarrow> nat \<Rightarrow> string \<Rightarrow> nat \<Rightarrow> ProcessResult \<times> nat" where
  "runTests_loop runs maxRetries attempt lastErr started =
     (if int attempt \<le> sint maxRetries then
        (if run_ok (runs attempt) then (no_result\<lparr>Success := True\<rparr>, Suc started)
         else if ctx_canceled (runs attempt)
           then (no_result\<lparr>Success := False, Error := ''test run canceled''\<rparr>, Suc started)
         else runTests_loop runs maxRetries (Suc attempt) (run_error (runs attempt)) (Suc started))
      else (no_result\<lparr> Success := False, TestsFailed := True,
                        Error := ''tests failed after '' @ fmt_d maxRetries @ '' attempts: ''
                                 @ lastErr \<rparr>, started))"
  by pat_completeness auto
termination
  by (relation "measure (\<lambda>(runs, maxRetries, attempt, lastErr, started).
                  nat (sint maxRetries + 1) - attempt)") auto

declare runTests_loop.simps [simp del]

definition runTests :: "MergeQueueConfig \<Rightarrow> (nat \<Rightarrow> run_outcome) \<Rightarrow> ProcessResult \<times> nat" where
  "runTests cfg runs =
     (if TestCommand cfg = [] then (no_result\<lparr>Success := True\<rparr>, 0)
      else
        (let maxRetries = (if sint (RetryFlakyTests cfg) < 1 then 1 else RetryFlakyTests cfg)
         in runTests_loop runs maxRetries 1 ''<nil>'' 0))"

text \<open>
  What \<^verbatim>\<open>doMerge\<close> asks of git (\<open>Inl\<close> and \<open>Some\<close> carry the text of an error) and of the
  test command.
\<close>

record merge_git =
  git_BranchExists :: "string + bool"
  git_Checkout :: "string option"
  git_Pull :: "string option"
  git_CheckConflicts :: "string + string list"
  git_MergeNoFF :: "string option"
  git_GetConflictingFiles :: "string + string list"
  git_Rev :: "string \<Rightarrow> string + string"
  git_Push :: "string option"
  test_runs :: "nat \<Rightarrow> run_outcome"

text \<open>\<^verbatim>\<open>%v\<close> of a slice of strings.\<close>

fun join_space :: "string list \<Rightarrow> string" where
  "join_space [] = []"
| "join_space [x] = x"
| "join_space (x # y # zs) = x @ '' '' @ join_space (y # zs)"

definition fmt_v :: "string list \<Rightarrow> string" where
  "fmt_v xs = ''['' @ join_space xs @ '']''"

text \<open>
  \<^verbatim>\<open>doMerge\<close>. The messages written to the output are not modelled. The last message
  slices the commit name with \<^verbatim>\<open>mergeCommit[:8]\<close>, which panics on a shorter string:
  \<open>Inl\<close> is the panic.
\<close>

definition doMerge ::
  "MergeQueueConfig \<Rightarrow> merge_git \<Rightarrow> string \<Rightarrow> string \<Rightarrow> string \<Rightarrow> string + ProcessResult" where
  "doMerge cfg g branch target sourceIssue =
     (case git_BranchExists g of
        Inl err \<Rightarrow>
          Inr (no_result\<lparr>Success := False,
                 Error := ''failed to check branch '' @ branch @ '': '' @ err\<rparr>)
      | Inr exists \<Rightarrow>
     if \<not> exists then
       Inr (no_result\<lparr>Success := False, Error := ''branch '' @ branch @ '' not found locally''\<rparr>)
     else
     (case git_Checkout g of
        Some err \<Rightarrow>
          Inr (no_result\<lparr>Success := False,
                 Error := ''failed to checkout target '' @ target @ '': '' @ err\<rparr>)
      | None \<Rightarrow>
     (case git_CheckConflicts g of
        Inl err \<Rightarrow>
          Inr (no_result\<lparr>Success := False, Conflict := True,
                 Error := ''conflict check failed: '' @ err\<rparr>)
      | Inr conflicts \<Rightarrow>
     if length conflicts > 0 then
       Inr (no_result\<lparr>Success := False, Conflict := True,
              Error := ''merge conflicts in: '' @ fmt_v conflicts\<rparr>)
     else
     (case (if RunTests cfg \<and> TestCommand cfg \<noteq> [] then
              (let result = fst (runTests cfg (test_runs g))
               in if \<not> Success result
                  then Some (no_result\<lparr>Success := False, TestsFailed := True,
                                       Error := Error result\<rparr>)
                  else None)
            else None) of
        Some failed \<Rightarrow> Inr failed
      | None \<Rightarrow>
     (case git_MergeNoFF g of
        Some err \<Rightarrow>
          (case git_GetConflictingFiles g of
             Inr conflicts \<Rightarrow>
               if length conflicts > 0 then
                 Inr (no_result\<lparr>Success := False, Conflict := True,
                        Error := ''merge conflict during actual merge''\<rparr>)
               else Inr (no_result\<lparr>Success := False, Error := ''merge failed: '' @ err\<rparr>)
           | Inl conflictErr \<Rightarrow>
               Inr (no_result\<lparr>Success := False, Error := ''merge failed: '' @ err\<rparr>))
      | None \<Rightarrow>
     (case git_Rev g ''HEAD'' of
        Inl err \<Rightarrow>
          Inr (no_result\<lparr>Success := False,
                 Error := ''failed to get merge commit SHA: '' @ err\<rparr>)
      | Inr mergeCommit \<Rightarrow>
     (case git_Push g of
        Some err \<Rightarrow>
          Inr (no_result\<lparr>Success := False, Error := ''failed to push to origin: '' @ err\<rparr>)
      | None \<Rightarrow>
     if length mergeCommit < 8 then Inl ''slice bounds out of range''
     else Inr (no_result\<lparr>Success := True, MergeCommit := mergeCommit\<rparr>))))))))"

subsection \<open>The tracker and the queue\<close>

text \<open>
  Modelled from the spec: the packages \<^verbatim>\<open>internal/beads\<close> (the tracker, with the merge
  slot) and \<^verbatim>\<open>internal/mrqueue\<close> (the queue of merge requests) are not among the
  sources. Of a merge request the model keeps the fields that the engine reads and
  writes; of an issue, the fields that \<^verbatim>\<open>Create\<close> is given, its id and its status. The
  merge slot has at most one holder. The queue maps the id of a merge request to the
  stored request.
\<close>

record MR =
  MR_ID :: string
  MR_Branch :: string
  MR_Target :: string
  MR_Worker :: string
  MR_SourceIssue :: string
  MR_AgentBead :: string
  MR_Priority :: go_int
  MR_RetryCount :: go_int
  MR_BlockedBy :: string

record Issue =
  Issue_ID :: string
  Issue_Title :: string
  Issue_Type :: string
  Issue_Priority :: go_int
  Issue_Description :: string
  Issue_Status :: string
  Issue_Actor :: string

record MergeSlotStatus =
  Available :: bool
  Holder :: string

text \<open>A notification sent to the rig's witness: the worker, the failure type, the error.\<close>

record engine_state =
  slot_holder :: "string option"
  issues :: "string \<rightharpoonup> Issue"
  queue :: "string \<rightharpoonup> MR"
  witness_inbox :: "(string \<times> string \<times> string) list"

text \<open>
  What can go wrong outside the engine during one call: the calls to the tracker, to git
  and to the mail router fail when their entry is set; \<open>created_id\<close> is the id that the
  tracker gives to the issue it creates.
\<close>

record engine_env =
  ensure_slot :: "string + string"
  acquire_error :: "string option"
  rev_origin :: "string + string"
  created_id :: "string + string"
  set_blocked_error :: "string option"
  send_error :: "string option"

text \<open>
  Modelled from the spec: "exactly one holder per rig; enforced by the tracker". A free
  slot is taken by the caller and reported as available with the caller as holder; a held
  slot is reported as unavailable with its holder.
\<close>

definition MergeSlotAcquire ::
  "engine_env \<Rightarrow> engine_state \<Rightarrow> string \<Rightarrow> (string + MergeSlotStatus) \<times> engine_state" where
  "MergeSlotAcquire env st holder =
     (case acquire_error env of
        Some err \<Rightarrow> (Inl err, st)
      | None \<Rightarrow>
          (case slot_holder st of
             None \<Rightarrow> (Inr \<lparr>Available = True, Holder = holder\<rparr>, st\<lparr>slot_holder := Some holder\<rparr>)
           | Some h \<Rightarrow> (Inr \<lparr>Available = False, Holder = h\<rparr>, st)))"

text \<open>
  Modelled from the spec: \<^verbatim>\<open>Create\<close> stores a new open issue of the given type under
  the id that the tracker chooses; \<^verbatim>\<open>Show\<close> looks an issue up.
\<close>

definition beads_Create ::
  "engine_env \<Rightarrow> engine_state \<Rightarrow> string \<Rightarrow> string \<Rightarrow> go_int \<Rightarrow> string \<Rightarrow> string
     \<Rightarrow> (string + Issue) \<times> engine_state" where
  "beads_Create env st title typ priority description actor =
     (case created_id env of
        Inl err \<Rightarrow> (Inl err, st)
      | Inr tid \<Rightarrow>
          (let issue = \<lparr> Issue_ID = tid, Issue_Title = title, Issue_Type = typ,
                         Issue_Priority = priority, Issue_Description = description,
                         Issue_Status = ''open'', Issue_Actor = actor \<rparr>
           in (Inr issue, st\<lparr>issues := (issues st)(tid \<mapsto> issue)\<rparr>)))"

definition beads_Show :: "engine_state \<Rightarrow> string \<Rightarrow> Issue option" where
  "beads_Show st bid = issues st bid"

text \<open>
  Modelled from the spec: \<^verbatim>\<open>set_blocked_by(mr_id, task_id)\<close> records the task id on the
  stored merge request.
\<close>

definition SetBlockedBy ::
  "engine_env \<Rightarrow> engine_state \<Rightarrow> string \<Rightarrow> string \<Rightarrow> string option \<times> engine_state" where
  "SetBlockedBy env st mrID taskID =
     (case set_blocked_error env of
        Some err \<Rightarrow> (Some err, st)
      | None \<Rightarrow>
          (case queue st mrID of
             None \<Rightarrow> (Some ''merge request not found'', st)
           | Some stored \<Rightarrow>
               (None, st\<lparr>queue := (queue st)(mrID \<mapsto> stored\<lparr>MR_BlockedBy := taskID\<rparr>)\<rparr>)))"

subsection \<open>The conflict path\<close>

definition conflict_description :: "MR \<Rightarrow> string \<Rightarrow> go_int \<Rightarrow> string" where
  "conflict_description mr sha8 retryCount =
     ''Resolve merge conflicts for branch '' @ MR_Branch mr @ [CHR 0x0A, CHR 0x0A]
     @ ''## Metadata'' @ [CHR 0x0A]
     @ ''- Original MR: '' @ MR_ID mr @ [CHR 0x0A]
     @ ''- Branch: '' @ MR_Branch mr @ [CHR 0x0A]
     @ ''- Conflict with: '' @ MR_Target mr @ ''@'' @ sha8 @ [CHR 0x0A]
     @ ''- Original issue: '' @ MR_SourceIssue mr @ [CHR 0x0A]
     @ ''- Retry count: '' @ fmt_d retryCount @ [CHR 0x0A, CHR 0x0A]
     @ ''## Instructions'' @ [CHR 0x0A]
     @ ''1. Check out the branch: git checkout '' @ MR_Branch mr @ [CHR 0x0A]
     @ ''2. Rebase onto target: git rebase origin/'' @ MR_Target mr @ [CHR 0x0A]
     @ ''3. Resolve conflicts in your editor'' @ [CHR 0x0A]
     @ ''4. Complete the rebase: git add . && git rebase --continue'' @ [CHR 0x0A]
     @ ''5. Force-push the resolved branch: git push -f'' @ [CHR 0x0A]
     @ ''6. Close this task: bd close <this-task-id>'' @ [CHR 0x0A, CHR 0x0A]
     @ ''The Refinery will automatically retry the merge after you force-push.''"

text \<open>
  The merge slot gate of \<^verbatim>\<open>createConflictResolutionTask\<close>: \<open>None\<close> when the slot is held
  by someone else and the task is deferred, the state to go on with otherwise. A tracker
  that fails to provide or to acquire the slot does not stop the task.
\<close>

definition merge_slot_gate ::
  "engine_env \<Rightarrow> engine_state \<Rightarrow> string \<Rightarrow> engine_state option" where
  "merge_slot_gate env st holder =
     (case ensure_slot env of
        Inl err \<Rightarrow> Some st
      | Inr slotID \<Rightarrow>
          (case MergeSlotAcquire env st holder of
             (Inl err, st') \<Rightarrow> Some st'
           | (Inr status, st') \<Rightarrow>
               if \<not> Available status \<and> Holder status \<noteq> [] \<and> Holder status \<noteq> holder
               then None
               else Some st'))"

text \<open>
  The result of \<^verbatim>\<open>createConflictResolutionTask\<close> is the pair of the task id and the
  error, with the new state and the merge request as the call leaves it; \<open>Inl\<close> is the
  panic of \<^verbatim>\<open>mainSHA[:8]\<close> on a commit name shorter than eight characters.
\<close>

definition createConflictResolutionTask ::
  "string \<Rightarrow> engine_env \<Rightarrow> engine_state \<Rightarrow> MR
     \<Rightarrow> string + ((string \<times> string option) \<times> engine_state \<times> MR)" where
  "createConflictResolutionTask rigName env st mr =
     (case merge_slot_gate env st (rigName @ ''/refinery'') of
        None \<Rightarrow> Inr (([], None), st, mr)
      | Some st1 \<Rightarrow>
          (let mainSHA = (case rev_origin env of Inl err \<Rightarrow> ''unknown-sha'' | Inr sha \<Rightarrow> sha);
               originalTitle =
                 (if MR_SourceIssue mr \<noteq> [] then
                    (case beads_Show st1 (MR_SourceIssue mr) of
                       Some sourceIssue \<Rightarrow> Issue_Title sourceIssue
                     | None \<Rightarrow> MR_SourceIssue mr)
                  else MR_SourceIssue mr);
               boostedPriority =
                 (if sint (MR_Priority mr - 1) < 0 then 0 else MR_Priority mr - 1);
               retryCount = MR_RetryCount mr + 1
           in if length mainSHA < 8 then Inl ''slice bounds out of range''
              else
                (case beads_Create env st1
                        (''Resolve merge conflicts: '' @ originalTitle) ''task'' boostedPriority
                        (conflict_description mr (take 8 mainSHA) retryCount)
                        (rigName @ ''/refinery'') of
                   (Inl err, st2) \<Rightarrow>
                     Inr (([], Some (''creating conflict resolution task: '' @ err)), st2, mr)
                 | (Inr task, st2) \<Rightarrow>
                     Inr ((Issue_ID task, None), st2, mr\<lparr>MR_RetryCount := retryCount\<rparr>))))"

text \<open>
  \<^verbatim>\<open>handleFailureFromQueue\<close>: notify the witness; on a conflict create the task and, when
  that returned no error, record its id on the stored merge request. Failures to log the
  event, to send the message and to record the id only print a warning.
\<close>

definition handleFailureFromQueue ::
  "string \<Rightarrow> engine_env \<Rightarrow> engine_state \<Rightarrow> MR \<Rightarrow> ProcessResult
     \<Rightarrow> string + (engine_state \<times> MR)" where
  "handleFailureFromQueue rigName env st mr result =
     (let failureType = (if Conflict result then ''conflict''
                         else if TestsFailed result then ''tests'' else ''build'');
          st1 = (case send_error env of
                   Some err \<Rightarrow> st
                 | None \<Rightarrow> st\<lparr>witness_inbox :=
                             witness_inbox st @ [(MR_Worker mr, failureType, Error result)]\<rparr>)
      in if Conflict result then
           (case createConflictResolutionTask rigName env st1 mr of
              Inl panic \<Rightarrow> Inl panic
            | Inr ((taskID, Some err), st2, mr') \<Rightarrow> Inr (st2, mr')
            | Inr ((taskID, None), st2, mr') \<Rightarrow>
                Inr (snd (SetBlockedBy env st2 (MR_ID mr') taskID), mr'))
         else Inr (st1, mr))"



subsection \<open>An example merge\<close>

definition cfg_tests :: MergeQueueConfig where
  "cfg_tests = DefaultMergeQueueConfig\<lparr>TestCommand := ''make test'', RetryFlakyTests := 3\<rparr>"

text \<open>A run of the test command that the cancelation of the context has killed.\<close>

definition killed_run :: run_outcome where
  "killed_run = \<lparr> run_ok = False, run_error = ''signal: killed'', ctx_canceled = True \<rparr>"

definition failed_run :: run_outcome where
  "failed_run = \<lparr> run_ok = False, run_error = ''exit status 1'', ctx_canceled = False \<rparr>"

definition passed_run :: run_outcome where
  "passed_run = \<lparr> run_ok = True, run_error = [], ctx_canceled = False \<rparr>"

text \<open>A repository in which the merge itself would go through.\<close>

definition git_mergeable :: "(nat \<Rightarrow> run_outcome) \<Rightarrow> merge_git" where
  "git_mergeable runs =
     \<lparr> git_BranchExists = Inr True, git_Checkout = None, git_Pull = None,
       git_CheckConflicts = Inr [], git_MergeNoFF = None, git_GetConflictingFiles = Inr [],
       git_Rev = (\<lambda>ref. Inr ''4f2a9c1e7b3d5a6f8e0c1b2a3d4e5f6a7b8c9d0e''),
       git_Push = None, test_runs = runs \<rparr>"

subsection \<open>An example conflict\<close>

definition mr_toast :: MR where
  "mr_toast = \<lparr> MR_ID = ''gt-mr-abc123'', MR_Branch = ''polecat/toast'', MR_Target = ''main'',
                MR_Worker = ''toast'', MR_SourceIssue = ''gt-xyz'', MR_AgentBead = [],
                MR_Priority = 2, MR_RetryCount = 0, MR_BlockedBy = [] \<rparr>"


text \<open>A tracker and a router that answer every call.\<close>

definition calm :: engine_env where
  "calm = \<lparr> ensure_slot = Inr ''gt-merge-slot'', acquire_error = None,
            rev_origin = Inr ''4f2a9c1e7b3d5a6f8e0c1b2a3d4e5f6a7b8c9d0e'',
            created_id = Inr ''gt-task-1'', set_blocked_error = None, send_error = None \<rparr>"

definition slot_free_state :: engine_state where
  "slot_free_state = \<lparr> slot_holder = None, issues = Map.empty,
                       queue = [''gt-mr-abc123'' \<mapsto> mr_toast], witness_inbox = [] \<rparr>"





section \<open>Properties of the identity pool\<close>

subsection \<open>The scan of \<^verbatim>\<open>Allocate\<close>\<close>

lemma Allocate_loop_Some:
  "i \<le> k \<Longrightarrow> k < length names \<Longrightarrow> int k < sint (MaxSize p) \<Longrightarrow>
   \<not> map_get (InUse p) (names ! k) \<Longrightarrow>
   (\<forall>j. i \<le> j \<and> j < k \<longrightarrow> map_get (InUse p) (names ! j)) \<Longrightarrow>
   Allocate_loop p names i = Some (names ! k)"
proof (induction p names i rule: Allocate_loop.induct)
  case (1 p names i)
  show ?case
  proof (cases "i = k")
    case True
    with "1.prems" show ?thesis by (simp add: Allocate_loop.simps)
  next
    case False
    with "1.prems" have lt: "i < k" by simp
    with "1.prems" have used: "map_get (InUse p) (names ! i)" by simp
    from lt "1.prems" have cond: "i < length names \<and> int i < sint (MaxSize p)" by simp
    have "Allocate_loop p names (Suc i) = Some (names ! k)"
      using "1.IH" cond used lt "1.prems" by simp
    with cond used show ?thesis by (simp add: Allocate_loop.simps)
  qed
qed

lemma Allocate_loop_None:
  "(\<forall>j. i \<le> j \<and> j < length names \<and> int j < sint (MaxSize p)
        \<longrightarrow> map_get (InUse p) (names ! j)) \<Longrightarrow>
   Allocate_loop p names i = None"
proof (induction p names i rule: Allocate_loop.induct)
  case (1 p names i)
  show ?case
  proof (cases "i < length names \<and> int i < sint (MaxSize p)")
    case True
    with "1.prems" have used: "map_get (InUse p) (names ! i)" by simp
    have "Allocate_loop p names (Suc i) = None"
      using "1.IH" True used "1.prems" by simp
    with True used show ?thesis by (simp add: Allocate_loop.simps)
  next
    case False
    then show ?thesis by (simp add: Allocate_loop.simps)
  qed
qed

lemma Allocate_first_free:
  assumes "slot_free p i" and "\<forall>j<i. \<not> slot_free p j"
  shows "Allocate p = (getNames p ! i, p\<lparr>InUse := (InUse p)(getNames p ! i \<mapsto> True)\<rparr>)"
proof -
  have "\<forall>j. 0 \<le> j \<and> j < i \<longrightarrow> map_get (InUse p) (getNames p ! j)"
    using assms by (auto simp: slot_free_def)
  then have "Allocate_loop p (getNames p) 0 = Some (getNames p ! i)"
    using assms(1) by (intro Allocate_loop_Some) (auto simp: slot_free_def)
  then show ?thesis by (simp add: Allocate_def)
qed

lemma Allocate_exhausted:
  assumes "\<forall>i. \<not> slot_free p i"
  shows "Allocate p = (formatOverflowName p (OverflowNext p),
                       p\<lparr>OverflowNext := OverflowNext p + 1\<rparr>)"
proof -
  have "Allocate_loop p (getNames p) 0 = None"
    using assms by (intro Allocate_loop_None) (auto simp: slot_free_def)
  then show ?thesis by (simp add: Allocate_def)
qed

lemma least_free:
  assumes "slot_free p i"
  shows "\<exists>k\<le>i. slot_free p k \<and> (\<forall>j<k. \<not> slot_free p j)"
proof -
  define k where "k = (LEAST k. slot_free p k)"
  have "slot_free p k" unfolding k_def using assms by (rule LeastI)
  moreover have "k \<le> i" unfolding k_def using assms by (rule Least_le)
  moreover have "\<forall>j<k. \<not> slot_free p j" unfolding k_def using not_less_Least by blast
  ultimately show ?thesis by blast
qed

lemmas pool_eval = NewNamePool_def NewNamePoolWithConfig_def getNames_def BuiltinThemes_def
  DefaultTheme_def mad_max_names_def minerals_names_def wasteland_names_def map_get_def
  DefaultPoolSize_def slot_free_def

text \<open>
  Claim C2, as amended. \<^verbatim>\<open>Allocate\<close> scans the theme list from the left over its first
  \<^verbatim>\<open>MaxSize\<close> names: when position \<open>i\<close> is the earliest free one, it returns that name
  and stores it as in use. When an earlier name \<open>a\<close> (position \<open>i\<close>) and a later name
  \<open>b\<close> (position \<open>j\<close>) are both free, the name returned stands at a free position
  no later than that of \<open>a\<close>: \<open>b\<close> is never preferred to \<open>a\<close>, and \<open>a\<close> is returned
  when nothing before it is free. When no position is free, it returns the overflow name
  \<^verbatim>\<open><rig_name>-<overflow_next>\<close> and adds one to the counter.
\<close>

theorem Allocate_scan:
  "(slot_free p i \<and> (\<forall>j<i. \<not> slot_free p j) \<longrightarrow>
      Allocate p = (getNames p ! i, p\<lparr>InUse := (InUse p)(getNames p ! i \<mapsto> True)\<rparr>))
   \<and> (slot_free p i \<and> slot_free p j \<and> i < j \<longrightarrow>
      (\<exists>k\<le>i. slot_free p k \<and> fst (Allocate p) = getNames p ! k))
   \<and> ((\<forall>i. \<not> slot_free p i) \<longrightarrow>
      Allocate p = (formatOverflowName p (OverflowNext p),
                    p\<lparr>OverflowNext := OverflowNext p + 1\<rparr>))"
proof (intro conjI impI)
  assume "slot_free p i \<and> (\<forall>j<i. \<not> slot_free p j)"
  then show "Allocate p = (getNames p ! i, p\<lparr>InUse := (InUse p)(getNames p ! i \<mapsto> True)\<rparr>)"
    by (simp add: Allocate_first_free)
next
  assume "slot_free p i \<and> slot_free p j \<and> i < j"
  then obtain k where k: "k \<le> i" "slot_free p k" "\<forall>j<k. \<not> slot_free p j"
    using least_free by blast
  then have "fst (Allocate p) = getNames p ! k"
    by (simp add: Allocate_first_free)
  with k show "\<exists>k\<le>i. slot_free p k \<and> fst (Allocate p) = getNames p ! k" by blast
next
  assume "\<forall>i. \<not> slot_free p i"
  then show "Allocate p = (formatOverflowName p (OverflowNext p),
                    p\<lparr>OverflowNext := OverflowNext p + 1\<rparr>)"
    by (rule Allocate_exhausted)
qed

theorem Allocate_scan_witness:
  "slot_free pool_one 1 \<and> \<not> slot_free pool_one 0 \<and> slot_free pool_one 2
   \<and> fst (Allocate pool_one) = ''nux''
   \<and> (\<forall>i. \<not> slot_free pool_alpha_full i)
   \<and> fst (Allocate pool_alpha_full) = ''rig-2''"
proof -
  have a: "slot_free pool_one 1" by (simp add: pool_eval pool_one_def)
  have b: "\<forall>j<1. \<not> slot_free pool_one j" by (simp add: pool_eval pool_one_def)
  have c: "slot_free pool_one 2" by (simp add: pool_eval pool_one_def)
  have d: "\<forall>i. \<not> slot_free pool_alpha_full i"
  proof
    fix i show "\<not> slot_free pool_alpha_full i"
      by (cases i) (simp_all add: pool_eval pool_alpha_full_def)
  qed
  have n1: "getNames pool_one ! 1 = ''nux''" by (simp add: pool_eval pool_one_def)
  have f: "formatOverflowName pool_alpha_full (OverflowNext pool_alpha_full) = ''rig-2''"
    by (simp add: formatOverflowName_def pool_alpha_full_def NewNamePoolWithConfig_def
        DefaultPoolSize_def fmt_d_def digit_char_def)
  from Allocate_scan [of pool_one 1 2] a b n1 have "fst (Allocate pool_one) = ''nux''" by simp
  moreover from Allocate_scan [of pool_alpha_full] d f
  have "fst (Allocate pool_alpha_full) = ''rig-2''" by simp
  moreover have "\<not> slot_free pool_one 0" using b by simp
  ultimately show ?thesis using a c d by blast
qed

text \<open>
  The claim as written says that \<^verbatim>\<open>Allocate\<close> returns \<open>a\<close> whenever \<open>a\<close> precedes
  \<open>b\<close> and both are free. In a fresh pool \<^verbatim>\<open>nux\<close> precedes \<^verbatim>\<open>slit\<close> and both are free,
  and \<^verbatim>\<open>Allocate\<close> returns \<^verbatim>\<open>furiosa\<close>.
\<close>

theorem Allocate_prefers_counterexample:
  "slot_free pool_fresh 1 \<and> slot_free pool_fresh 2
   \<and> getNames pool_fresh ! 1 = ''nux'' \<and> getNames pool_fresh ! 2 = ''slit''
   \<and> fst (Allocate pool_fresh) = ''furiosa''
   \<and> fst (Allocate pool_fresh) \<noteq> getNames pool_fresh ! 1"
  by (simp add: pool_eval pool_fresh_def Allocate_def Allocate_loop.simps)

subsection \<open>\<^verbatim>\<open>Release\<close> and the overflow names\<close>

lemma Release_not_themed: "\<not> isThemedName p name \<Longrightarrow> Release p name = p"
  by (simp add: Release_def)

lemma Release_absent: "InUse p name = None \<Longrightarrow> Release p name = p"
proof -
  assume a: "InUse p name = None"
  then have "(InUse p)(name := None) = InUse p" by (simp add: fun_upd_idem)
  then show ?thesis by (simp add: Release_def)
qed

lemma Release_OverflowNext: "OverflowNext (Release p name) = OverflowNext p"
  by (simp add: Release_def)

lemma slot_free_OverflowNext [simp]: "slot_free (p\<lparr>OverflowNext := x\<rparr>) i = slot_free p i"
  by (simp add: slot_free_def getNames_def)

lemma isThemedName_OverflowNext [simp]: "isThemedName (p\<lparr>OverflowNext := x\<rparr>) n = isThemedName p n"
  by (simp add: isThemedName_def getNames_def)

lemma formatOverflowName_OverflowNext [simp]:
  "formatOverflowName (p\<lparr>OverflowNext := x\<rparr>) n = formatOverflowName p n"
  by (simp add: formatOverflowName_def)

lemma run_ops_exhausted:
  "(\<forall>i. \<not> slot_free p i) \<Longrightarrow> (\<forall>n\<in>set (released ops). \<not> isThemedName p n) \<Longrightarrow>
   length (fst (run_ops p ops)) = count_allocs ops \<and>
   (\<forall>k<count_allocs ops. fst (run_ops p ops) ! k = formatOverflowName p (OverflowNext p + of_nat k)) \<and>
   OverflowNext (snd (run_ops p ops)) = OverflowNext p + of_nat (count_allocs ops)"
proof (induction p ops rule: run_ops.induct)
  case (1 p)
  then show ?case by simp
next
  case (2 p ops)
  let ?p' = "p\<lparr>OverflowNext := OverflowNext p + 1\<rparr>"
  have al: "Allocate p = (formatOverflowName p (OverflowNext p), ?p')"
    using "2.prems"(1) by (rule Allocate_exhausted)
  have ih: "length (fst (run_ops ?p' ops)) = count_allocs ops \<and>
     (\<forall>k<count_allocs ops. fst (run_ops ?p' ops) ! k = formatOverflowName ?p' (OverflowNext ?p' + of_nat k)) \<and>
     OverflowNext (snd (run_ops ?p' ops)) = OverflowNext ?p' + of_nat (count_allocs ops)"
    using "2.IH" [OF al [symmetric]] "2.prems" by simp
  have r: "run_ops p (DoAllocate # ops) =
      (formatOverflowName p (OverflowNext p) # fst (run_ops ?p' ops), snd (run_ops ?p' ops))"
    by (simp add: al split: prod.splits)
  have nth: "\<forall>k<Suc (count_allocs ops).
      (formatOverflowName p (OverflowNext p) # fst (run_ops ?p' ops)) ! k
        = formatOverflowName p (OverflowNext p + of_nat k)"
  proof (intro allI impI)
    fix k assume k: "k < Suc (count_allocs ops)"
    show "(formatOverflowName p (OverflowNext p) # fst (run_ops ?p' ops)) ! k
        = formatOverflowName p (OverflowNext p + of_nat k)"
    proof (cases k)
      case 0
      then show ?thesis by simp
    next
      case (Suc k')
      with k ih show ?thesis by (simp add: ac_simps)
    qed
  qed
  show ?case unfolding r using ih nth by (simp add: ac_simps)
next
  case (3 p name ops)
  have "\<not> isThemedName p name" using "3.prems"(2) by simp
  then have "Release p name = p" by (rule Release_not_themed)
  with "3.IH" "3.prems" show ?case by simp
qed

lemma digit_char_is_digit: "d < 10 \<Longrightarrow> is_digit (digit_char d)"
proof -
  assume "d < 10"
  then have "d \<in> {0,1,2,3,4,5,6,7,8,9}" by auto
  then show ?thesis by (auto simp: digit_char_def is_digit_def)
qed

lemma nat_digits_last: "nat_digits n \<noteq> [] \<and> is_digit (last (nat_digits n))"
proof (induction n rule: nat_digits.induct)
  case (1 n)
  show ?case
  proof (cases "n < 10")
    case True
    then show ?thesis by (simp add: digit_char_is_digit)
  next
    case False
    have "n mod 10 < 10" by simp
    then have "is_digit (digit_char (n mod 10))" by (rule digit_char_is_digit)
    with False show ?thesis by (subst nat_digits.simps) simp
  qed
qed

lemma fmt_d_last: "fmt_d i \<noteq> [] \<and> is_digit (last (fmt_d i))"
  using nat_digits_last by (simp add: fmt_d_def)

lemma formatOverflowName_last: "is_digit (last (formatOverflowName p n))"
  using fmt_d_last [of n] by (simp add: formatOverflowName_def)

lemma builtin_no_digit:
  "list_all (\<lambda>name. \<not> is_digit (last name)) mad_max_names"
  "list_all (\<lambda>name. \<not> is_digit (last name)) minerals_names"
  "list_all (\<lambda>name. \<not> is_digit (last name)) wasteland_names"
  by (simp_all add: mad_max_names_def minerals_names_def wasteland_names_def is_digit_def)

lemma getNames_builtin:
  "CustomNames p = [] \<Longrightarrow> getNames p \<in> {mad_max_names, minerals_names, wasteland_names}"
  by (auto simp: getNames_def BuiltinThemes_def DefaultTheme_def split: option.splits if_splits)

lemma overflow_not_themed:
  assumes "CustomNames p = []"
  shows "\<not> isThemedName p (formatOverflowName p n)"
proof
  assume "isThemedName p (formatOverflowName p n)"
  then have mem: "formatOverflowName p n \<in> set (getNames p)"
    by (auto simp: isThemedName_def list_ex_iff)
  have "list_all (\<lambda>name. \<not> is_digit (last name)) (getNames p)"
    using getNames_builtin [OF assms] builtin_no_digit by auto
  with mem have "\<not> is_digit (last (formatOverflowName p n))"
    by (simp add: list_all_iff)
  with formatOverflowName_last show False by blast
qed

text \<open>
  Claim C8. \<^verbatim>\<open>Release\<close> does nothing outside the themed pool: releasing a name that is
  not a theme name, or a name that the in-use map does not hold, returns the pool
  unchanged, and no release changes the overflow counter. In a pool without custom names
  an overflow name is never a theme name. Once every candidate position is in use, the
  allocations of any run that releases only names outside the theme (overflow names among
  them) hand out \<^verbatim>\<open><rig>-<overflow_next>\<close>, \<^verbatim>\<open><rig>-<overflow_next + 1>\<close>, ... in
  order; in a pool fresh from its constructor the counter stands at \<^verbatim>\<open>max_size + 1\<close>.
\<close>

theorem Release_outside_pool:
  "(\<not> isThemedName p name \<longrightarrow> Release p name = p)
   \<and> (InUse p name = None \<longrightarrow> Release p name = p)
   \<and> OverflowNext (Release p name) = OverflowNext p
   \<and> (CustomNames p = [] \<longrightarrow> \<not> isThemedName p (formatOverflowName p n))
   \<and> ((\<forall>i. \<not> slot_free p i) \<and> (\<forall>r\<in>set (released ops). \<not> isThemedName p r) \<longrightarrow>
        length (fst (run_ops p ops)) = count_allocs ops
        \<and> (\<forall>k<count_allocs ops.
              fst (run_ops p ops) ! k = formatOverflowName p (OverflowNext p + of_nat k))
        \<and> OverflowNext (snd (run_ops p ops)) = OverflowNext p + of_nat (count_allocs ops))"
  using Release_not_themed [of p name] Release_absent [of p name] Release_OverflowNext [of p name]
    overflow_not_themed [of p n] run_ops_exhausted [of p ops]
  by blast

theorem Release_outside_pool_witness:
  "(\<forall>i. \<not> slot_free pool_three_full i)
   \<and> OverflowNext pool_three_full = MaxSize pool_three_full + 1
   \<and> \<not> isThemedName pool_three_full ''gastown-4''
   \<and> InUse pool_three_full ''rictus'' = None
   \<and> Release pool_three_full ''rictus'' = pool_three_full
   \<and> Release pool_three_full ''gastown-4'' = pool_three_full
   \<and> fst (run_ops pool_three_full [DoAllocate, DoRelease ''gastown-4'', DoAllocate]) ! 0
        = ''gastown-4''
   \<and> fst (run_ops pool_three_full [DoAllocate, DoRelease ''gastown-4'', DoAllocate]) ! 1
        = ''gastown-5''"
proof -
  let ?P = pool_three_full
  let ?ops = "[DoAllocate, DoRelease ''gastown-4'', DoAllocate]"
  have ex: "\<forall>i. \<not> slot_free ?P i"
  proof
    fix i :: nat
    have "i = 0 \<or> i = 1 \<or> i = 2 \<or> 3 \<le> i" by arith
    then show "\<not> slot_free ?P i" by (auto simp: pool_eval pool_three_full_def)
  qed
  have nt: "\<not> isThemedName ?P ''gastown-4''"
    by (simp add: isThemedName_def pool_eval pool_three_full_def)
  have ab: "InUse ?P ''rictus'' = None" by (simp add: pool_eval pool_three_full_def)
  have rel: "\<forall>r\<in>set (released ?ops). \<not> isThemedName ?P r" using nt by simp
  have o: "OverflowNext ?P = MaxSize ?P + 1" by (simp add: pool_eval pool_three_full_def)
  have f0: "formatOverflowName ?P (OverflowNext ?P + of_nat 0) = ''gastown-4''"
    by (simp add: formatOverflowName_def pool_eval pool_three_full_def fmt_d_def digit_char_def)
  have f1: "formatOverflowName ?P (OverflowNext ?P + of_nat 1) = ''gastown-5''"
    by (simp add: formatOverflowName_def pool_eval pool_three_full_def fmt_d_def digit_char_def)
  have c: "count_allocs ?ops = 2" by simp
  from Release_outside_pool [of ?P "''rictus''" 0 ?ops] ex rel ab
  have r: "Release ?P ''rictus'' = ?P"
    and n: "\<forall>k<count_allocs ?ops. fst (run_ops ?P ?ops) ! k
              = formatOverflowName ?P (OverflowNext ?P + of_nat k)"
    by blast+
  from Release_outside_pool [of ?P "''gastown-4''"] nt
  have r2: "Release ?P ''gastown-4'' = ?P" by blast
  from n c have "fst (run_ops ?P ?ops) ! 0 = formatOverflowName ?P (OverflowNext ?P + of_nat 0)"
    by simp
  moreover from n c
  have "fst (run_ops ?P ?ops) ! 1 = formatOverflowName ?P (OverflowNext ?P + of_nat 1)"
    by simp
  ultimately show ?thesis using ex o nt ab r r2 f0 f1 by simp
qed

subsection \<open>\<^verbatim>\<open>SetTheme\<close>\<close>

lemma BuiltinThemes_known:
  "BuiltinThemes theme = None \<longleftrightarrow> theme \<notin> {''mad-max'', ''minerals'', ''wasteland''}"
  by (simp add: BuiltinThemes_def)

lemma SetTheme_error: "(\<exists>e. SetTheme p theme = Inl e) \<longleftrightarrow> BuiltinThemes theme = None"
  by (auto simp: SetTheme_def split: option.splits)

lemma SetTheme_ok:
  assumes "SetTheme p theme = Inr p'"
  shows "\<exists>newNames. BuiltinThemes theme = Some newNames \<and> Theme p' = theme \<and> CustomNames p' = []
     \<and> (\<forall>n. InUse p' n = (if n \<in> dom (InUse p) \<and> n \<in> set newNames then Some True else None))
     \<and> RigName p' = RigName p \<and> OverflowNext p' = OverflowNext p \<and> MaxSize p' = MaxSize p"
  using assms by (auto simp: SetTheme_def list_ex_iff split: option.splits)

lemma SetTheme_same:
  assumes "BuiltinThemes (Theme p) = Some names" and "CustomNames p = []"
    and "\<forall>n\<in>dom (InUse p). n \<in> set names \<and> InUse p n = Some True"
  shows "SetTheme p (Theme p) = Inr p"
proof -
  have "(\<lambda>name. case InUse p name of None \<Rightarrow> None
            | Some _ \<Rightarrow> if list_ex (\<lambda>n. n = name) names then Some True else None) = InUse p"
  proof
    fix name
    show "(case InUse p name of None \<Rightarrow> None
            | Some _ \<Rightarrow> if list_ex (\<lambda>n. n = name) names then Some True else None) = InUse p name"
      using assms(3) by (cases "InUse p name") (auto simp: list_ex_iff dom_def)
  qed
  with assms(1,2) show ?thesis by (simp add: SetTheme_def)
qed


text \<open>
  Claim C9, as amended. \<^verbatim>\<open>SetTheme\<close> returns an error exactly when the theme is not one
  of the three built-in themes. On success the theme is set, the custom names are
  cleared, and the in-use map holds exactly the old in-use names that are names of the
  new theme; when the old in-use names all belong to the old name list, these are the
  names present in both. Setting the pool's current theme returns the pool unchanged
  when the pool has no custom names and every in-use entry is a name of that theme.
\<close>

theorem SetTheme_spec:
  "((\<exists>e. SetTheme p theme = Inl e) \<longleftrightarrow> theme \<notin> {''mad-max'', ''minerals'', ''wasteland''})
   \<and> (SetTheme p theme = Inr p' \<longrightarrow>
        (\<exists>newNames. BuiltinThemes theme = Some newNames \<and> getNames p' = newNames
           \<and> Theme p' = theme \<and> CustomNames p' = []
           \<and> (\<forall>n. InUse p' n = (if n \<in> dom (InUse p) \<and> n \<in> set newNames
                                then Some True else None))
           \<and> RigName p' = RigName p \<and> OverflowNext p' = OverflowNext p
           \<and> MaxSize p' = MaxSize p))
   \<and> (SetTheme p theme = Inr p' \<and> dom (InUse p) \<subseteq> set (getNames p) \<longrightarrow>
        dom (InUse p') = dom (InUse p) \<inter> set (getNames p) \<inter> set (getNames p'))
   \<and> (BuiltinThemes (Theme p) = Some names \<and> CustomNames p = []
        \<and> (\<forall>n\<in>dom (InUse p). n \<in> set names \<and> InUse p n = Some True) \<longrightarrow>
        SetTheme p (Theme p) = Inr p)"
proof (intro conjI impI)
  show "(\<exists>e. SetTheme p theme = Inl e) \<longleftrightarrow> theme \<notin> {''mad-max'', ''minerals'', ''wasteland''}"
    using SetTheme_error [of p theme] BuiltinThemes_known [of theme] by simp
next
  assume a: "SetTheme p theme = Inr p'"
  from SetTheme_ok [OF a] obtain newNames where n: "BuiltinThemes theme = Some newNames"
    "Theme p' = theme" "CustomNames p' = []"
    "\<forall>n. InUse p' n = (if n \<in> dom (InUse p) \<and> n \<in> set newNames then Some True else None)"
    "RigName p' = RigName p" "OverflowNext p' = OverflowNext p" "MaxSize p' = MaxSize p"
    by blast
  then have "getNames p' = newNames" by (simp add: getNames_def)
  with n show "\<exists>newNames. BuiltinThemes theme = Some newNames \<and> getNames p' = newNames
           \<and> Theme p' = theme \<and> CustomNames p' = []
           \<and> (\<forall>n. InUse p' n = (if n \<in> dom (InUse p) \<and> n \<in> set newNames
                                then Some True else None))
           \<and> RigName p' = RigName p \<and> OverflowNext p' = OverflowNext p
           \<and> MaxSize p' = MaxSize p" by blast
next
  assume a: "SetTheme p theme = Inr p' \<and> dom (InUse p) \<subseteq> set (getNames p)"
  from SetTheme_ok [of p theme p'] a obtain newNames where n: "BuiltinThemes theme = Some newNames"
    "Theme p' = theme" "CustomNames p' = []"
    "\<forall>n. InUse p' n = (if n \<in> dom (InUse p) \<and> n \<in> set newNames then Some True else None)"
    by blast
  then have g: "getNames p' = newNames" by (simp add: getNames_def)
  have "dom (InUse p') = dom (InUse p) \<inter> set newNames"
    using n(4) by (auto simp: dom_def split: if_splits)
  with a g show "dom (InUse p') = dom (InUse p) \<inter> set (getNames p) \<inter> set (getNames p')"
    by auto
next
  assume "BuiltinThemes (Theme p) = Some names \<and> CustomNames p = []
        \<and> (\<forall>n\<in>dom (InUse p). n \<in> set names \<and> InUse p n = Some True)"
  then show "SetTheme p (Theme p) = Inr p" by (simp add: SetTheme_same)
qed

lemma SetTheme_pool_two: "SetTheme pool_two ''wasteland'' = Inr pool_two_wasteland"
proof -
  have "(\<lambda>name. case [''furiosa'' \<mapsto> True, ''chrome'' \<mapsto> True] name of None \<Rightarrow> None
            | Some _ \<Rightarrow> if list_ex (\<lambda>n. n = name) wasteland_names then Some True else None)
        = [''chrome'' \<mapsto> True]"
    by (rule ext) (simp add: wasteland_names_def)
  then show ?thesis
    by (simp add: SetTheme_def BuiltinThemes_def NewNamePool_def pool_two_def
        pool_two_wasteland_def)
qed

theorem SetTheme_spec_witness:
  "SetTheme pool_two ''wasteland'' = Inr pool_two_wasteland
   \<and> dom (InUse pool_two) \<subseteq> set (getNames pool_two)
   \<and> dom (InUse pool_two_wasteland)
       = dom (InUse pool_two) \<inter> set mad_max_names \<inter> set wasteland_names
   \<and> (\<exists>e. SetTheme pool_two ''invalid-theme'' = Inl e)
   \<and> BuiltinThemes (Theme pool_two) = Some mad_max_names
   \<and> CustomNames pool_two = []
   \<and> SetTheme pool_two (Theme pool_two) = Inr pool_two"
proof -
  have s: "SetTheme pool_two ''wasteland'' = Inr pool_two_wasteland" by (rule SetTheme_pool_two)
  have sub: "dom (InUse pool_two) \<subseteq> set (getNames pool_two)"
    by (simp add: pool_eval pool_two_def)
  have g: "getNames pool_two = mad_max_names" "getNames pool_two_wasteland = wasteland_names"
    by (simp_all add: getNames_def BuiltinThemes_def NewNamePool_def DefaultTheme_def
        pool_two_def pool_two_wasteland_def)
  have b: "BuiltinThemes (Theme pool_two) = Some mad_max_names"
    by (simp add: BuiltinThemes_def NewNamePool_def DefaultTheme_def pool_two_def)
  have c: "CustomNames pool_two = []" by (simp add: NewNamePool_def pool_two_def)
  have d: "\<forall>n\<in>dom (InUse pool_two). n \<in> set mad_max_names \<and> InUse pool_two n = Some True"
    by (simp add: mad_max_names_def pool_two_def)
  have e: "''invalid-theme'' \<notin> {''mad-max'', ''minerals'', ''wasteland''}" by simp
  have "dom (InUse pool_two_wasteland)
          = dom (InUse pool_two) \<inter> set (getNames pool_two) \<inter> set (getNames pool_two_wasteland)"
    by (rule mp [OF SetTheme_spec [of pool_two "''wasteland''" pool_two_wasteland,
            THEN conjunct2, THEN conjunct2, THEN conjunct1]])
       (intro conjI s sub)
  then have 1: "dom (InUse pool_two_wasteland)
          = dom (InUse pool_two) \<inter> set mad_max_names \<inter> set wasteland_names"
    by (simp only: g)
  have 2: "\<exists>e. SetTheme pool_two ''invalid-theme'' = Inl e"
    by (rule iffD2 [OF SetTheme_spec [of pool_two "''invalid-theme''", THEN conjunct1] e])
  have 3: "SetTheme pool_two (Theme pool_two) = Inr pool_two"
    by (rule mp [OF SetTheme_spec [of pool_two _ _ mad_max_names,
            THEN conjunct2, THEN conjunct2, THEN conjunct2]])
       (intro conjI b c d)
  show ?thesis by (intro conjI s sub 1 2 b c 3)
qed

text \<open>
  The claim as written says that setting the pool's current theme changes nothing. A pool
  built with custom names has the theme \<^verbatim>\<open>mad-max\<close>; setting that theme again succeeds
  and clears the custom names, so the next allocation hands out \<^verbatim>\<open>furiosa\<close> where the
  pool before would have handed out \<^verbatim>\<open>alpha\<close>.
\<close>

theorem SetTheme_same_theme_counterexample:
  "Theme pool_custom = ''mad-max''
   \<and> SetTheme pool_custom (Theme pool_custom) = Inr (pool_custom\<lparr>CustomNames := []\<rparr>)
   \<and> pool_custom\<lparr>CustomNames := []\<rparr> \<noteq> pool_custom
   \<and> fst (Allocate pool_custom) = ''alpha''
   \<and> fst (Allocate (pool_custom\<lparr>CustomNames := []\<rparr>)) = ''furiosa''"
proof -
  have 1: "Theme pool_custom = ''mad-max''"
    by (simp add: pool_custom_def NewNamePoolWithConfig_def DefaultTheme_def)
  have 2: "SetTheme pool_custom ''mad-max'' = Inr (pool_custom\<lparr>CustomNames := []\<rparr>)"
    by (simp add: SetTheme_def BuiltinThemes_def pool_custom_def NewNamePoolWithConfig_def
        DefaultTheme_def)
  have "CustomNames (pool_custom\<lparr>CustomNames := []\<rparr>) \<noteq> CustomNames pool_custom"
    by (simp add: pool_custom_def NewNamePoolWithConfig_def)
  then have 3: "pool_custom\<lparr>CustomNames := []\<rparr> \<noteq> pool_custom" by metis
  have 4: "fst (Allocate pool_custom) = ''alpha''"
    by (simp add: Allocate_def Allocate_loop.simps pool_custom_def pool_eval)
  have 5: "fst (Allocate (pool_custom\<lparr>CustomNames := []\<rparr>)) = ''furiosa''"
    by (simp add: Allocate_def Allocate_loop.simps pool_custom_def pool_eval)
  from 1 2 3 4 5 show ?thesis by simp
qed

subsection \<open>\<^verbatim>\<open>Save\<close> and \<^verbatim>\<open>Load\<close>\<close>

lemma reliable_no_faults: "no_faults reliable_io"
  by (simp add: reliable_io_def no_faults_def)









section \<open>Properties of the identity lock\<close>

lemma write_lock_ok:
  "no_faults env \<Longrightarrow> write_lock env fs l s = (None, fs(lockPath l \<mapsto> Doc (fresh_lock env s)))"
  by (simp add: write_lock_def no_faults_def os_MkdirAll_def os_WriteFile_def fresh_lock_def)

lemma Read_lock_ok:
  "no_faults env \<Longrightarrow> Read_lock env fs l =
     (case fs (lockPath l) of None \<Rightarrow> Inl ErrNotLocked | Some Malformed \<Rightarrow> Inl ErrInvalidLock
      | Some (Doc info) \<Rightarrow> Inr info)"
  by (simp add: Read_lock_def no_faults_def os_ReadFile_def os_IsNotExist_def
      split: option.splits content.splits)

lemma Release_lock_ok:
  "no_faults env \<Longrightarrow> Release_lock env fs l = (None, fs(lockPath l := None))"
  by (auto simp: Release_lock_def no_faults_def os_Remove_def os_IsNotExist_def
      split: option.splits)

lemma Acquire_absent:
  assumes "no_faults env" and "fs (lockPath l) = None"
  shows "Acquire env fs l s = (None, fs(lockPath l \<mapsto> Doc (fresh_lock env s)))"
  using assms by (simp add: Acquire_def Read_lock_ok write_lock_ok)

lemma Acquire_stale:
  assumes "no_faults env" and "fs (lockPath l) = Some (Doc info)"
    and "\<not> processExists env (PID info)"
  shows "Acquire env fs l s = write_lock env (fs(lockPath l := None)) l s"
    and "Acquire env fs l s = (None, fs(lockPath l \<mapsto> Doc (fresh_lock env s)))"
  using assms
  by (simp_all add: Acquire_def Read_lock_ok Release_lock_ok write_lock_ok IsStale_lock_def)

lemma Acquire_own:
  assumes "no_faults env" and "fs (lockPath l) = Some (Doc info)"
    and "PID info = os_Getpid env"
  shows "Acquire env fs l s = (None, fs(lockPath l \<mapsto> Doc (fresh_lock env s)))"
  using assms
  by (simp add: Acquire_def Read_lock_ok Release_lock_ok write_lock_ok IsStale_lock_def)

lemma Acquire_other:
  assumes "no_faults env" and "fs (lockPath l) = Some (Doc info)"
    and "processExists env (PID info)" and "PID info \<noteq> os_Getpid env"
  shows "Acquire env fs l s = (Some (ErrLocked (PID info) (SessionID info) (AcquiredAt info)), fs)"
  using assms
  by (simp add: Acquire_def Read_lock_ok IsStale_lock_def)

lemma Acquire_malformed:
  assumes "no_faults env" and "fs (lockPath l) = Some Malformed"
  shows "Acquire env fs l s = (None, fs(lockPath l \<mapsto> Doc (fresh_lock env s)))"
  using assms by (simp add: Acquire_def Read_lock_ok write_lock_ok)

lemma Acquire_fails_iff:
  assumes "no_faults env"
  shows "fst (Acquire env fs l s) \<noteq> None \<longleftrightarrow>
     (\<exists>info. fs (lockPath l) = Some (Doc info) \<and> processExists env (PID info)
              \<and> PID info \<noteq> os_Getpid env)"
proof (cases "fs (lockPath l)")
  case None
  with assms show ?thesis by (simp add: Acquire_absent)
next
  case (Some c)
  show ?thesis
  proof (cases c)
    case Malformed
    with Some assms show ?thesis by (simp add: Acquire_malformed)
  next
    case (Doc info)
    show ?thesis
    proof (cases "processExists env (PID info)")
      case False
      with Some Doc assms show ?thesis by (simp add: Acquire_stale(2))
    next
      case True
      show ?thesis
      proof (cases "PID info = os_Getpid env")
        case True
        with Some Doc assms show ?thesis by (simp add: Acquire_own)
      next
        case False
        with Some Doc assms \<open>processExists env (PID info)\<close> show ?thesis
          by (simp add: Acquire_other)
      qed
    qed
  qed
qed

lemma Acquire_locked_iff:
  assumes "no_faults env"
  shows "fst (Acquire env fs l s) = Some (ErrLocked pid sess at) \<longleftrightarrow>
     (\<exists>info. fs (lockPath l) = Some (Doc info) \<and> processExists env (PID info)
              \<and> PID info \<noteq> os_Getpid env
              \<and> pid = PID info \<and> sess = SessionID info \<and> at = AcquiredAt info)"
proof (cases "fs (lockPath l)")
  case None
  with assms show ?thesis by (simp add: Acquire_absent)
next
  case (Some c)
  show ?thesis
  proof (cases c)
    case Malformed
    with Some assms show ?thesis by (simp add: Acquire_malformed)
  next
    case (Doc info)
    show ?thesis
    proof (cases "processExists env (PID info)")
      case False
      with Some Doc assms show ?thesis by (simp add: Acquire_stale(2))
    next
      case True
      show ?thesis
      proof (cases "PID info = os_Getpid env")
        case True
        with Some Doc assms show ?thesis by (simp add: Acquire_own)
      next
        case False
        with Some Doc assms \<open>processExists env (PID info)\<close> show ?thesis
          by (auto simp: Acquire_other)
      qed
    qed
  qed
qed

text \<open>
  Claim C3. When the file system does not fail: \<^verbatim>\<open>Acquire\<close> succeeds and leaves a fresh
  lock with the PID of the current process when the lock file is absent; when the file
  records a dead PID the stale lock is removed first and the fresh lock is written over
  the emptied path; when the recorded PID is the current process the lock is rewritten
  with the new session and time. It fails exactly when the recorded PID is a different
  live process, and the error is then \<^verbatim>\<open>ErrLocked\<close> with the PID, the session and the
  acquisition time that were read; the lock file is left as it was.
\<close>

theorem Acquire_protocol:
  "no_faults env \<longrightarrow>
     (fs (lockPath l) = None \<longrightarrow>
        Acquire env fs l s = (None, fs(lockPath l \<mapsto> Doc (fresh_lock env s))))
   \<and> (fs (lockPath l) = Some (Doc info) \<and> \<not> processExists env (PID info) \<longrightarrow>
        Release_lock env fs l = (None, fs(lockPath l := None))
        \<and> Acquire env fs l s = write_lock env (fs(lockPath l := None)) l s
        \<and> Acquire env fs l s = (None, fs(lockPath l \<mapsto> Doc (fresh_lock env s))))
   \<and> (fs (lockPath l) = Some (Doc info) \<and> PID info = os_Getpid env \<longrightarrow>
        Acquire env fs l s = (None, fs(lockPath l \<mapsto> Doc (fresh_lock env s))))
   \<and> (fs (lockPath l) = Some (Doc info) \<and> processExists env (PID info)
        \<and> PID info \<noteq> os_Getpid env \<longrightarrow>
        Acquire env fs l s
          = (Some (ErrLocked (PID info) (SessionID info) (AcquiredAt info)), fs))
   \<and> (fst (Acquire env fs l s) \<noteq> None \<longleftrightarrow>
        (\<exists>i. fs (lockPath l) = Some (Doc i) \<and> processExists env (PID i)
             \<and> PID i \<noteq> os_Getpid env))
   \<and> (fst (Acquire env fs l s) = Some (ErrLocked pid sess at) \<longleftrightarrow>
        (\<exists>i. fs (lockPath l) = Some (Doc i) \<and> processExists env (PID i)
             \<and> PID i \<noteq> os_Getpid env
             \<and> pid = PID i \<and> sess = SessionID i \<and> at = AcquiredAt i))
   \<and> PID (fresh_lock env s) = os_Getpid env \<and> SessionID (fresh_lock env s) = s
   \<and> AcquiredAt (fresh_lock env s) = time_Now env"
proof (intro impI conjI)
  assume nf: "no_faults env"
  show "Acquire env fs l s = (None, fs(lockPath l \<mapsto> Doc (fresh_lock env s)))"
    if "fs (lockPath l) = None" using that nf by (rule Acquire_absent [rotated])
  show "Release_lock env fs l = (None, fs(lockPath l := None))"
    using nf by (rule Release_lock_ok)
  show "Acquire env fs l s = write_lock env (fs(lockPath l := None)) l s"
    if "fs (lockPath l) = Some (Doc info) \<and> \<not> processExists env (PID info)"
    using that nf by (simp add: Acquire_stale(1))
  show "Acquire env fs l s = (None, fs(lockPath l \<mapsto> Doc (fresh_lock env s)))"
    if "fs (lockPath l) = Some (Doc info) \<and> \<not> processExists env (PID info)"
    using that nf by (simp add: Acquire_stale(2))
  show "Acquire env fs l s = (None, fs(lockPath l \<mapsto> Doc (fresh_lock env s)))"
    if "fs (lockPath l) = Some (Doc info) \<and> PID info = os_Getpid env"
    using that nf by (simp add: Acquire_own)
  show "Acquire env fs l s = (Some (ErrLocked (PID info) (SessionID info) (AcquiredAt info)), fs)"
    if "fs (lockPath l) = Some (Doc info) \<and> processExists env (PID info)
        \<and> PID info \<noteq> os_Getpid env"
    using that nf by (simp add: Acquire_other)
  show "fst (Acquire env fs l s) \<noteq> None \<longleftrightarrow>
        (\<exists>i. fs (lockPath l) = Some (Doc i) \<and> processExists env (PID i)
             \<and> PID i \<noteq> os_Getpid env)"
    using nf by (rule Acquire_fails_iff)
  show "fst (Acquire env fs l s) = Some (ErrLocked pid sess at) \<longleftrightarrow>
        (\<exists>i. fs (lockPath l) = Some (Doc i) \<and> processExists env (PID i)
             \<and> PID i \<noteq> os_Getpid env
             \<and> pid = PID i \<and> sess = SessionID i \<and> at = AcquiredAt i)"
    using nf by (rule Acquire_locked_iff)
qed (simp_all add: fresh_lock_def)


lemma host_no_faults: "no_faults host"
  by (simp add: host_def no_faults_def)

lemma host_processes:
  "\<not> processExists host 999" "processExists host 777" "processExists host 4242"
  "os_Getpid host = 4242"
  by (simp_all add: host_def processExists_def)

theorem Acquire_protocol_witness:
  "no_faults host
   \<and> Acquire host Map.empty toast_lock ''gt-rig-toast-2''
       = (None, [lockPath toast_lock \<mapsto> Doc (fresh_lock host ''gt-rig-toast-2'')])
   \<and> \<not> processExists host (PID (lock_of 999))
   \<and> Acquire host [lockPath toast_lock \<mapsto> Doc (lock_of 999)] toast_lock ''gt-rig-toast-2''
       = (None, [lockPath toast_lock \<mapsto> Doc (fresh_lock host ''gt-rig-toast-2'')])
   \<and> PID (lock_of 4242) = os_Getpid host
   \<and> Acquire host [lockPath toast_lock \<mapsto> Doc (lock_of 4242)] toast_lock ''gt-rig-toast-2''
       = (None, [lockPath toast_lock \<mapsto> Doc (fresh_lock host ''gt-rig-toast-2'')])
   \<and> processExists host (PID (lock_of 777)) \<and> PID (lock_of 777) \<noteq> os_Getpid host
   \<and> Acquire host [lockPath toast_lock \<mapsto> Doc (lock_of 777)] toast_lock ''gt-rig-toast-2''
       = (Some (ErrLocked 777 ''gt-rig-toast'' 1600000000000000000),
          [lockPath toast_lock \<mapsto> Doc (lock_of 777)])"
proof -
  let ?p = "lockPath toast_lock"
  let ?s = "''gt-rig-toast-2''"
  note nf = host_no_faults
  have pids: "PID (lock_of 999) = 999" "PID (lock_of 777) = 777" "PID (lock_of 4242) = 4242"
    "SessionID (lock_of 777) = ''gt-rig-toast''" "AcquiredAt (lock_of 777) = 1600000000000000000"
    by (simp_all add: lock_of_def)
  have a: "Acquire host Map.empty toast_lock ?s = (None, [?p \<mapsto> Doc (fresh_lock host ?s)])"
    by (rule Acquire_protocol [of host Map.empty toast_lock ?s, THEN mp, OF nf,
          THEN conjunct1, THEN mp]) simp
  have b: "Acquire host [?p \<mapsto> Doc (lock_of 999)] toast_lock ?s
             = (None, [?p \<mapsto> Doc (fresh_lock host ?s)])"
    by (rule Acquire_protocol [of host "[?p \<mapsto> Doc (lock_of 999)]" toast_lock ?s "lock_of 999",
          THEN mp, OF nf, THEN conjunct2, THEN conjunct1, THEN mp,
          THEN conjunct2, THEN conjunct2, simplified])
       (simp add: host_processes pids)
  have c: "Acquire host [?p \<mapsto> Doc (lock_of 4242)] toast_lock ?s
             = (None, [?p \<mapsto> Doc (fresh_lock host ?s)])"
    by (rule Acquire_protocol [of host "[?p \<mapsto> Doc (lock_of 4242)]" toast_lock ?s "lock_of 4242",
          THEN mp, OF nf, THEN conjunct2, THEN conjunct2, THEN conjunct1, THEN mp, simplified])
       (simp add: host_processes pids)
  have d: "Acquire host [?p \<mapsto> Doc (lock_of 777)] toast_lock ?s
             = (Some (ErrLocked 777 ''gt-rig-toast'' 1600000000000000000),
                [?p \<mapsto> Doc (lock_of 777)])"
    using Acquire_protocol [of host "[?p \<mapsto> Doc (lock_of 777)]" toast_lock ?s "lock_of 777",
          THEN mp, OF nf, THEN conjunct2, THEN conjunct2, THEN conjunct2, THEN conjunct1, THEN mp]
    by (simp add: host_processes pids)
  show ?thesis using nf a b c d host_processes pids by simp
qed

section \<open>Properties of the wisp store\<close>

subsection \<open>Strings through JSON\<close>

lemma coerce_valid: "valid_from k s \<Longrightarrow> coerce_from k s = s"
  by (induction k s rule: coerce_from.induct) (auto split: nat.splits)

lemma coerce_length: "length s \<le> length (coerce_from k s)"
proof (induction k s rule: coerce_from.induct)
  case (3 c cs)
  then show ?case by (cases "DecodeRune_size (c # cs)") (auto simp: RuneError_def)
qed simp_all

lemma coerce_fixed: "coerce_from k s = s \<Longrightarrow> valid_from k s"
proof (induction k s rule: coerce_from.induct)
  case (3 c cs)
  show ?case
  proof (cases "DecodeRune_size (c # cs)")
    case 0
    with 3(3) have "RuneError @ coerce_from 0 cs = c # cs" by simp
    then have "length (RuneError @ coerce_from 0 cs) = length (c # cs)" by simp
    with coerce_length [of cs 0] show ?thesis by (simp add: RuneError_def)
  next
    case (Suc n)
    with 3 show ?thesis by simp
  qed
qed simp_all

lemma json_string_fixed: "json_string s = s \<longleftrightarrow> utf8_ValidString s"
  unfolding json_string_def utf8_ValidString_def using coerce_valid coerce_fixed by blast

lemma ascii_size: "byte c < 0x80 \<Longrightarrow> DecodeRune_size (c # cs) = 1"
  by (simp add: Let_def)

lemma ascii_valid: "\<forall>c\<in>set s. byte c < 0x80 \<Longrightarrow> valid_from 0 s"
  by (induction s) (simp_all add: ascii_size del: DecodeRune_size.simps)

lemma coerce_ascii:
  "\<forall>c\<in>set (coerce_from 0 s). byte c < 0x80 \<Longrightarrow> coerce_from 0 s = s"
proof (induction s)
  case (Cons c cs)
  show ?case
  proof (cases "DecodeRune_size (c # cs)")
    case 0
    with Cons.prems show ?thesis by (simp add: RuneError_def byte_def)
  next
    case (Suc n)
    with Cons.prems have "byte c < 0x80" by simp
    then have "DecodeRune_size (c # cs) = 1" by (rule ascii_size)
    with Suc have n: "n = 0" by simp
    with Suc Cons show ?thesis by simp
  qed
qed simp

lemma TypeSlungWork_ascii: "\<forall>c\<in>set TypeSlungWork. byte c < 0x80"
  by (simp add: TypeSlungWork_def byte_def)

lemma json_string_TypeSlungWork: "json_string t = TypeSlungWork \<longleftrightarrow> t = TypeSlungWork"
proof
  assume a: "json_string t = TypeSlungWork"
  then have "\<forall>c\<in>set (coerce_from 0 t). byte c < 0x80"
    using TypeSlungWork_ascii by (simp add: json_string_def)
  then have "coerce_from 0 t = t" by (rule coerce_ascii)
  with a show "t = TypeSlungWork" by (simp add: json_string_def)
next
  assume "t = TypeSlungWork"
  then show "json_string t = TypeSlungWork"
    using ascii_valid [OF TypeSlungWork_ascii] by (simp add: json_string_def coerce_valid)
qed

lemma json_SlungWork_fixed: "json_SlungWork w = w \<longleftrightarrow> utf8_fields w"
proof
  assume a: "json_SlungWork w = w"
  have "Type (json_SlungWork w) = json_string (Type w)"
    "CreatedBy (json_SlungWork w) = json_string (CreatedBy w)"
    "BeadID (json_SlungWork w) = json_string (BeadID w)"
    "Context (json_SlungWork w) = json_string (Context w)"
    "Subject (json_SlungWork w) = json_string (Subject w)"
    by (simp_all add: json_SlungWork_def)
  with a show "utf8_fields w" by (simp add: utf8_fields_def json_string_fixed [symmetric])
next
  assume "utf8_fields w"
  then show "json_SlungWork w = w"
    by (simp add: utf8_fields_def json_SlungWork_def json_string_fixed [symmetric])
qed

lemma json_SlungWork_Type: "Type (json_SlungWork w) = TypeSlungWork \<longleftrightarrow> Type w = TypeSlungWork"
  by (simp add: json_SlungWork_def json_string_TypeSlungWork)

subsection \<open>Hooks\<close>

lemma Join_nested:
  "filepath_Join [filepath_Join [root, WispDir], f] = filepath_Join [root, WispDir, f]"
  by (simp add: WispDir_def)

lemma hook_write_path:
  "filepath_Join [filepath_Join [root, WispDir], HookFilename agent] = HookPath root agent"
  by (simp add: HookPath_def WispPath_def Join_nested)

lemma WriteSlungWork_unfold:
  "WriteSlungWork io fs root agent w =
     (if mkdir_fault io then (Some (CreateWispDir EIO), fs)
      else writeJSON io fs (HookPath root agent) json_MarshalIndent w)"
proof -
  have e: "EnsureDir io root
      = (if mkdir_fault io then Inl (CreateWispDir EIO) else Inr (filepath_Join [root, WispDir]))"
    by (simp add: EnsureDir_def os_MkdirAll_def Let_def del: filepath_Join.simps)
  show ?thesis
    unfolding WriteSlungWork_def e by (simp add: hook_write_path del: filepath_Join.simps)
qed

lemma writeJSON_ok:
  "no_faults io \<Longrightarrow> marshal v = Some d \<Longrightarrow>
   writeJSON io fs path marshal v = (None, (fs(path @ ''.tmp'' := None))(path \<mapsto> Doc d))"
  by (simp add: writeJSON_def no_faults_def os_WriteFile_def os_Rename_def Let_def)

lemma writeJSON_success:
  "fst (writeJSON io fs path marshal v) = None \<longleftrightarrow>
     marshal v \<noteq> None \<and> \<not> write_fault io \<and> \<not> rename_fault io"
  by (auto simp: writeJSON_def os_WriteFile_def os_Rename_def os_Remove_def Let_def
      split: option.splits)

lemma writeJSON_stored:
  "fst (writeJSON io fs path marshal v) = None \<Longrightarrow>
   \<exists>d. marshal v = Some d \<and> snd (writeJSON io fs path marshal v) path = Some (Doc d)"
  by (auto simp: writeJSON_def os_WriteFile_def os_Rename_def os_Remove_def Let_def
      split: option.splits if_splits)

lemma WriteSlungWork_ok:
  assumes nf: "no_faults io" and t: "time_MarshalJSON_ok (CreatedAt w)"
  shows "WriteSlungWork io fs root agent w =
     (None, (fs(HookPath root agent @ ''.tmp'' := None))
              (HookPath root agent \<mapsto> Doc (json_SlungWork w)))"
proof -
  have m: "json_MarshalIndent w = Some (json_SlungWork w)"
    using t by (simp add: json_MarshalIndent_def)
  have k: "\<not> mkdir_fault io" using nf by (simp add: no_faults_def)
  show ?thesis
    unfolding WriteSlungWork_unfold using k
    by (simp add: writeJSON_ok [of io json_MarshalIndent w "json_SlungWork w", OF nf m])
qed

lemma WriteSlungWork_late:
  assumes "\<not> time_MarshalJSON_ok (CreatedAt w)" and "\<not> mkdir_fault io"
  shows "WriteSlungWork io fs root agent w = (Some MarshalJSON, fs)"
  using assms by (simp add: WriteSlungWork_unfold writeJSON_def json_MarshalIndent_def)

lemma WriteSlungWork_stored:
  assumes "fst (WriteSlungWork io fs root agent w) = None"
  shows "time_MarshalJSON_ok (CreatedAt w)
     \<and> snd (WriteSlungWork io fs root agent w) (HookPath root agent) = Some (Doc (json_SlungWork w))"
proof -
  from assms have k: "\<not> mkdir_fault io"
    by (auto simp: WriteSlungWork_unfold split: if_splits)
  with assms have s: "fst (writeJSON io fs (HookPath root agent) json_MarshalIndent w) = None"
    by (simp add: WriteSlungWork_unfold)
  from writeJSON_stored [OF s] k show ?thesis
    by (auto simp: WriteSlungWork_unfold json_MarshalIndent_def split: if_splits)
qed

lemma ReadHook_ok:
  "\<not> read_fault io \<Longrightarrow> ReadHook io fs root agent =
     (case fs (HookPath root agent) of
        None \<Rightarrow> Inl ErrNoHook
      | Some Malformed \<Rightarrow> Inl ErrInvalidWisp
      | Some (Doc sw) \<Rightarrow> (if Type sw = TypeSlungWork then Inr sw else Inl ErrInvalidWisp))"
  by (simp add: ReadHook_def os_ReadFile_def os_IsNotExist_def
      split: option.splits content.splits)

lemma BurnHook_ok:
  "no_faults io \<Longrightarrow> BurnHook io fs root agent = (None, fs(HookPath root agent := None))"
  by (auto simp: BurnHook_def os_Remove_def no_faults_def os_IsNotExist_def split: option.splits)

lemma ReadHook_after_write:
  assumes "fst (WriteSlungWork io fs root agent w) = None" and "\<not> read_fault io"
    and "Type w = TypeSlungWork"
  shows "ReadHook io (snd (WriteSlungWork io fs root agent w)) root agent = Inr (json_SlungWork w)"
  using WriteSlungWork_stored [OF assms(1)] assms(2,3)
  by (simp add: ReadHook_ok json_SlungWork_Type)

lemma hook_roundtrip_reliable:
  "no_faults io \<longrightarrow>
     (Type w = TypeSlungWork \<and> utf8_fields w \<and> time_MarshalJSON_ok (CreatedAt w) \<longrightarrow>
        fst (WriteSlungWork io fs root agent w) = None
        \<and> ReadHook io (snd (WriteSlungWork io fs root agent w)) root agent = Inr w)
   \<and> (Type w \<noteq> TypeSlungWork \<and> time_MarshalJSON_ok (CreatedAt w) \<longrightarrow>
        ReadHook io (snd (WriteSlungWork io fs root agent w)) root agent = Inl ErrInvalidWisp)
   \<and> (\<not> time_MarshalJSON_ok (CreatedAt w) \<longrightarrow>
        WriteSlungWork io fs root agent w = (Some MarshalJSON, fs))
   \<and> fst (BurnHook io fs root agent) = None
   \<and> ReadHook io (snd (BurnHook io fs root agent)) root agent = Inl ErrNoHook
   \<and> ReadHook io (snd (BurnHook io (snd (WriteSlungWork io fs root agent w)) root agent))
        root agent = Inl ErrNoHook
   \<and> (ReadHook io fs root agent = Inl ErrNoHook \<longleftrightarrow> fs (HookPath root agent) = None)
   \<and> ErrNoHook \<noteq> ErrInvalidWisp"
proof
  assume nf: "no_faults io"
  then have r: "\<not> read_fault io" and k: "\<not> mkdir_fault io" by (simp_all add: no_faults_def)
  have 1: "Type w = TypeSlungWork \<and> utf8_fields w \<and> time_MarshalJSON_ok (CreatedAt w) \<longrightarrow>
        fst (WriteSlungWork io fs root agent w) = None
        \<and> ReadHook io (snd (WriteSlungWork io fs root agent w)) root agent = Inr w"
    by (simp add: WriteSlungWork_ok [OF nf] ReadHook_ok [OF r] json_SlungWork_Type
        json_SlungWork_fixed)
  have 2: "Type w \<noteq> TypeSlungWork \<and> time_MarshalJSON_ok (CreatedAt w) \<longrightarrow>
        ReadHook io (snd (WriteSlungWork io fs root agent w)) root agent = Inl ErrInvalidWisp"
    by (simp add: WriteSlungWork_ok [OF nf] ReadHook_ok [OF r] json_SlungWork_Type)
  have 3: "\<not> time_MarshalJSON_ok (CreatedAt w) \<longrightarrow>
        WriteSlungWork io fs root agent w = (Some MarshalJSON, fs)"
    using k by (simp add: WriteSlungWork_late)
  have 4: "fst (BurnHook io fs root agent) = None
      \<and> ReadHook io (snd (BurnHook io fs root agent)) root agent = Inl ErrNoHook"
    by (simp add: BurnHook_ok [OF nf] ReadHook_ok [OF r])
  have 5: "ReadHook io (snd (BurnHook io (snd (WriteSlungWork io fs root agent w)) root agent))
        root agent = Inl ErrNoHook"
    by (simp add: BurnHook_ok [OF nf] ReadHook_ok [OF r])
  have 6: "ReadHook io fs root agent = Inl ErrNoHook \<longleftrightarrow> fs (HookPath root agent) = None"
    by (simp add: ReadHook_ok [OF r] split: option.splits content.splits)
  from 1 2 3 4 5 6 show "(Type w = TypeSlungWork \<and> utf8_fields w \<and> time_MarshalJSON_ok (CreatedAt w) \<longrightarrow>
        fst (WriteSlungWork io fs root agent w) = None
        \<and> ReadHook io (snd (WriteSlungWork io fs root agent w)) root agent = Inr w)
   \<and> (Type w \<noteq> TypeSlungWork \<and> time_MarshalJSON_ok (CreatedAt w) \<longrightarrow>
        ReadHook io (snd (WriteSlungWork io fs root agent w)) root agent = Inl ErrInvalidWisp)
   \<and> (\<not> time_MarshalJSON_ok (CreatedAt w) \<longrightarrow>
        WriteSlungWork io fs root agent w = (Some MarshalJSON, fs))
   \<and> fst (BurnHook io fs root agent) = None
   \<and> ReadHook io (snd (BurnHook io fs root agent)) root agent = Inl ErrNoHook
   \<and> ReadHook io (snd (BurnHook io (snd (WriteSlungWork io fs root agent w)) root agent))
        root agent = Inl ErrNoHook
   \<and> (ReadHook io fs root agent = Inl ErrNoHook \<longleftrightarrow> fs (HookPath root agent) = None)
   \<and> ErrNoHook \<noteq> ErrInvalidWisp"
    by simp
qed

lemma hook_roundtrip_written:
  "fst (WriteSlungWork io fs root agent w) = None \<and> \<not> read_fault io \<and> Type w = TypeSlungWork
     \<longrightarrow> time_MarshalJSON_ok (CreatedAt w)
       \<and> ReadHook io (snd (WriteSlungWork io fs root agent w)) root agent = Inr (json_SlungWork w)
       \<and> (ReadHook io (snd (WriteSlungWork io fs root agent w)) root agent = Inr w
            \<longleftrightarrow> utf8_fields w)"
proof
  assume a: "fst (WriteSlungWork io fs root agent w) = None \<and> \<not> read_fault io \<and> Type w = TypeSlungWork"
  then have r: "ReadHook io (snd (WriteSlungWork io fs root agent w)) root agent
      = Inr (json_SlungWork w)"
    by (intro ReadHook_after_write) simp_all
  from a have t: "time_MarshalJSON_ok (CreatedAt w)"
    using WriteSlungWork_stored [of io fs root agent w] by simp
  from r t show "time_MarshalJSON_ok (CreatedAt w)
       \<and> ReadHook io (snd (WriteSlungWork io fs root agent w)) root agent = Inr (json_SlungWork w)
       \<and> (ReadHook io (snd (WriteSlungWork io fs root agent w)) root agent = Inr w
            \<longleftrightarrow> utf8_fields w)"
    by (simp add: json_SlungWork_fixed)
qed

text \<open>
  Claim C6, as amended. On a file system that does not fail, for every root, agent and
  slung-work wisp \<open>w\<close> whose strings are valid UTF-8 and whose creation time lies in the
  years 0 to 9999, \<^verbatim>\<open>WriteSlungWork\<close> succeeds and \<^verbatim>\<open>ReadHook\<close> then returns \<open>w\<close>; a
  creation time outside of these years makes \<^verbatim>\<open>WriteSlungWork\<close> return the error of the
  encoder and leave the files as they were; \<^verbatim>\<open>BurnHook\<close> succeeds and \<^verbatim>\<open>ReadHook\<close> then
  returns \<^verbatim>\<open>ErrNoHook\<close>, also after a write; reading a hook returns \<^verbatim>\<open>ErrNoHook\<close> exactly
  when its file does not exist, and \<^verbatim>\<open>ErrNoHook\<close> is not \<^verbatim>\<open>ErrInvalidWisp\<close>, which is
  what a written \<^verbatim>\<open>SlungWork\<close> of another type reads back as. Whatever the file system
  does, a \<^verbatim>\<open>WriteSlungWork\<close> of a slung-work wisp that returns no error, followed by a
  \<^verbatim>\<open>ReadHook\<close> whose read does not fail, gives \<open>w\<close> with every byte that begins no UTF-8
  encoding replaced by \<^verbatim>\<open>U+FFFD\<close>; this is \<open>w\<close> exactly when the strings of \<open>w\<close> are
  valid UTF-8.
\<close>

theorem hook_roundtrip:
  "(no_faults io \<longrightarrow>
     (Type w = TypeSlungWork \<and> utf8_fields w \<and> time_MarshalJSON_ok (CreatedAt w) \<longrightarrow>
        fst (WriteSlungWork io fs root agent w) = None
        \<and> ReadHook io (snd (WriteSlungWork io fs root agent w)) root agent = Inr w)
   \<and> (Type w \<noteq> TypeSlungWork \<and> time_MarshalJSON_ok (CreatedAt w) \<longrightarrow>
        ReadHook io (snd (WriteSlungWork io fs root agent w)) root agent = Inl ErrInvalidWisp)
   \<and> (\<not> time_MarshalJSON_ok (CreatedAt w) \<longrightarrow>
        WriteSlungWork io fs root agent w = (Some MarshalJSON, fs))
   \<and> fst (BurnHook io fs root agent) = None
   \<and> ReadHook io (snd (BurnHook io fs root agent)) root agent = Inl ErrNoHook
   \<and> ReadHook io (snd (BurnHook io (snd (WriteSlungWork io fs root agent w)) root agent))
        root agent = Inl ErrNoHook
   \<and> (ReadHook io fs root agent = Inl ErrNoHook \<longleftrightarrow> fs (HookPath root agent) = None)
   \<and> ErrNoHook \<noteq> ErrInvalidWisp)
   \<and> (fst (WriteSlungWork io fs root agent w) = None \<and> \<not> read_fault io
        \<and> Type w = TypeSlungWork
      \<longrightarrow> time_MarshalJSON_ok (CreatedAt w)
        \<and> ReadHook io (snd (WriteSlungWork io fs root agent w)) root agent
            = Inr (json_SlungWork w)
        \<and> (ReadHook io (snd (WriteSlungWork io fs root agent w)) root agent = Inr w
             \<longleftrightarrow> utf8_fields w))"
  by (rule conjI [OF hook_roundtrip_reliable hook_roundtrip_written])

lemma toast_work_fields:
  "Type toast_work = TypeSlungWork" "CreatedAt toast_work = 1700000000000000000"
  "CreatedBy toast_work = ''crew/joe''" "BeadID toast_work = ''gt-abc12''"
  "Context toast_work = ''fix the flaky test''" "Subject toast_work = ''handoff''"
  by (simp_all add: toast_work_def NewSlungWork_def)

lemma toast_work_time: "time_MarshalJSON_ok (CreatedAt toast_work)"
  by (simp add: toast_work_fields time_MarshalJSON_ok_def year_0_def year_10000_def)

lemma toast_work_utf8: "utf8_fields toast_work"
  unfolding utf8_fields_def utf8_ValidString_def toast_work_fields TypeSlungWork_def
  by (intro conjI ascii_valid) (simp_all add: byte_def)

theorem hook_roundtrip_witness:
  "no_faults reliable_io \<and> \<not> read_fault reliable_io \<and> Type toast_work = TypeSlungWork
   \<and> utf8_fields toast_work \<and> time_MarshalJSON_ok (CreatedAt toast_work)
   \<and> fst (WriteSlungWork reliable_io Map.empty ''/town/rig'' ''toast'' toast_work) = None
   \<and> ReadHook reliable_io
        (snd (WriteSlungWork reliable_io Map.empty ''/town/rig'' ''toast'' toast_work))
        ''/town/rig'' ''toast'' = Inr toast_work
   \<and> json_SlungWork toast_work = toast_work
   \<and> ReadHook reliable_io
        (snd (BurnHook reliable_io
           (snd (WriteSlungWork reliable_io Map.empty ''/town/rig'' ''toast'' toast_work))
           ''/town/rig'' ''toast''))
        ''/town/rig'' ''toast'' = Inl ErrNoHook
   \<and> Map.empty (HookPath ''/town/rig'' ''nux'') = (None :: SlungWork content option)
   \<and> ReadHook reliable_io Map.empty ''/town/rig'' ''nux'' = Inl ErrNoHook
   \<and> \<not> time_MarshalJSON_ok (CreatedAt late_work)
   \<and> WriteSlungWork reliable_io Map.empty ''/town/rig'' ''toast'' late_work
       = (Some MarshalJSON, Map.empty)"
proof -
  note nf = reliable_no_faults
  note T = hook_roundtrip [of reliable_io toast_work Map.empty "''/town/rig''" "''toast''",
      THEN conjunct1, THEN mp, OF nf]
  note U = hook_roundtrip [of reliable_io toast_work Map.empty "''/town/rig''" "''nux''",
      THEN conjunct1, THEN mp, OF nf]
  note V = hook_roundtrip [of reliable_io toast_work Map.empty "''/town/rig''" "''toast''",
      THEN conjunct2, THEN mp]
  note L = hook_roundtrip [of reliable_io late_work Map.empty "''/town/rig''" "''toast''",
      THEN conjunct1, THEN mp, OF nf]
  have r: "\<not> read_fault reliable_io"
    by (simp add: reliable_io_def)
  have h: "Type toast_work = TypeSlungWork \<and> utf8_fields toast_work
      \<and> time_MarshalJSON_ok (CreatedAt toast_work)"
    by (intro conjI toast_work_fields toast_work_utf8 toast_work_time)
  have 0: "fst (WriteSlungWork reliable_io Map.empty ''/town/rig'' ''toast'' toast_work) = None"
    by (rule T [THEN conjunct1, THEN mp, OF h, THEN conjunct1])
  have 1: "ReadHook reliable_io
        (snd (WriteSlungWork reliable_io Map.empty ''/town/rig'' ''toast'' toast_work))
        ''/town/rig'' ''toast'' = Inr toast_work"
    by (rule T [THEN conjunct1, THEN mp, OF h, THEN conjunct2])
  have v: "ReadHook reliable_io
        (snd (WriteSlungWork reliable_io Map.empty ''/town/rig'' ''toast'' toast_work))
        ''/town/rig'' ''toast'' = Inr (json_SlungWork toast_work)"
    by (rule V [THEN conjunct2, THEN conjunct1]) (intro conjI 0 r toast_work_fields)
  from 1 v have j: "json_SlungWork toast_work = toast_work" by simp
  have 2: "ReadHook reliable_io
        (snd (BurnHook reliable_io
           (snd (WriteSlungWork reliable_io Map.empty ''/town/rig'' ''toast'' toast_work))
           ''/town/rig'' ''toast''))
        ''/town/rig'' ''toast'' = Inl ErrNoHook"
    by (rule T [THEN conjunct2, THEN conjunct2, THEN conjunct2, THEN conjunct2, THEN conjunct2,
          THEN conjunct1])
  have 3: "ReadHook reliable_io Map.empty ''/town/rig'' ''nux'' = Inl ErrNoHook"
    by (rule U [THEN conjunct2, THEN conjunct2, THEN conjunct2, THEN conjunct2, THEN conjunct2,
          THEN conjunct2, THEN conjunct1, THEN iffD2]) simp
  have l: "\<not> time_MarshalJSON_ok (CreatedAt late_work)"
    by (simp add: late_work_def time_MarshalJSON_ok_def)
  have 4: "WriteSlungWork reliable_io Map.empty ''/town/rig'' ''toast'' late_work
       = (Some MarshalJSON, Map.empty)"
    by (rule L [THEN conjunct2, THEN conjunct2, THEN conjunct1, THEN mp, OF l])
  from nf r h 0 1 j 2 3 l 4 show ?thesis by simp
qed

text \<open>
  The claim as written has \<^verbatim>\<open>ReadHook\<close> return \<open>w\<close> after \<^verbatim>\<open>WriteSlungWork\<close> for every
  slung-work wisp. A context that is the single byte \<^verbatim>\<open>0xFF\<close> is written without an
  error, as the escape of \<^verbatim>\<open>U+FFFD\<close>, and read back as the three bytes of that code
  point; a wisp dated in the year 10000 is not written at all, and \<^verbatim>\<open>ReadHook\<close> finds
  no hook.
\<close>

theorem hook_roundtrip_counterexample:
  "Type garbled_work = TypeSlungWork \<and> Context garbled_work = [CHR 0xFF]
   \<and> fst (WriteSlungWork reliable_io Map.empty ''/town/rig'' ''toast'' garbled_work) = None
   \<and> ReadHook reliable_io
        (snd (WriteSlungWork reliable_io Map.empty ''/town/rig'' ''toast'' garbled_work))
        ''/town/rig'' ''toast'' = Inr (garbled_work\<lparr>Context := [CHR 0xEF, CHR 0xBF, CHR 0xBD]\<rparr>)
   \<and> ReadHook reliable_io
        (snd (WriteSlungWork reliable_io Map.empty ''/town/rig'' ''toast'' garbled_work))
        ''/town/rig'' ''toast'' \<noteq> Inr garbled_work
   \<and> Type late_work = TypeSlungWork
   \<and> WriteSlungWork reliable_io Map.empty ''/town/rig'' ''toast'' late_work
       = (Some MarshalJSON, Map.empty)
   \<and> ReadHook reliable_io
        (snd (WriteSlungWork reliable_io Map.empty ''/town/rig'' ''toast'' late_work))
        ''/town/rig'' ''toast'' = Inl ErrNoHook"
proof -
  note nf = reliable_no_faults
  have r: "\<not> read_fault reliable_io" and k: "\<not> mkdir_fault reliable_io"
    by (simp_all add: reliable_io_def)
  have f: "Type garbled_work = TypeSlungWork" "Context garbled_work = [CHR 0xFF]"
    "CreatedAt garbled_work = CreatedAt toast_work"
    by (simp_all add: garbled_work_def toast_work_fields)
  have t: "time_MarshalJSON_ok (CreatedAt garbled_work)"
    by (simp add: f toast_work_time)
  have c: "json_string [CHR 0xFF] = [CHR 0xEF, CHR 0xBF, CHR 0xBD]"
    by (simp add: json_string_def byte_def RuneError_def)
  have u: "json_string (Type toast_work) = Type toast_work"
    "json_string (CreatedBy toast_work) = CreatedBy toast_work"
    "json_string (BeadID toast_work) = BeadID toast_work"
    "json_string (Subject toast_work) = Subject toast_work"
    using toast_work_utf8 by (simp_all add: utf8_fields_def json_string_fixed)
  have j: "json_SlungWork garbled_work
      = garbled_work\<lparr>Context := [CHR 0xEF, CHR 0xBF, CHR 0xBD]\<rparr>"
    by (simp add: json_SlungWork_def garbled_work_def u c)
  have w: "WriteSlungWork reliable_io Map.empty ''/town/rig'' ''toast'' garbled_work
      = (None, (Map.empty(HookPath ''/town/rig'' ''toast'' @ ''.tmp'' := None))
                 (HookPath ''/town/rig'' ''toast'' \<mapsto> Doc (json_SlungWork garbled_work)))"
    by (rule WriteSlungWork_ok [OF nf t])
  have 1: "fst (WriteSlungWork reliable_io Map.empty ''/town/rig'' ''toast'' garbled_work) = None"
    by (simp only: w fst_conv)
  have 2: "ReadHook reliable_io
        (snd (WriteSlungWork reliable_io Map.empty ''/town/rig'' ''toast'' garbled_work))
        ''/town/rig'' ''toast'' = Inr (garbled_work\<lparr>Context := [CHR 0xEF, CHR 0xBF, CHR 0xBD]\<rparr>)"
    using ReadHook_after_write [OF 1 r f(1)] by (simp only: j)
  have d: "Context (garbled_work\<lparr>Context := [CHR 0xEF, CHR 0xBF, CHR 0xBD]\<rparr>) \<noteq> Context garbled_work"
    by (simp add: f)
  then have 3: "garbled_work\<lparr>Context := [CHR 0xEF, CHR 0xBF, CHR 0xBD]\<rparr> \<noteq> garbled_work"
    by metis
  have lt: "Type late_work = TypeSlungWork"
    by (simp add: late_work_def toast_work_fields)
  have l: "\<not> time_MarshalJSON_ok (CreatedAt late_work)"
    by (simp add: late_work_def time_MarshalJSON_ok_def)
  have 4: "WriteSlungWork reliable_io Map.empty ''/town/rig'' ''toast'' late_work
       = (Some MarshalJSON, Map.empty)"
    by (rule WriteSlungWork_late [OF l k])
  have 5: "ReadHook reliable_io Map.empty ''/town/rig'' ''toast'' = Inl ErrNoHook"
    by (simp add: ReadHook_ok [OF r])
  from f(1,2) 1 2 3 lt 4 5 show ?thesis by simp
qed

section \<open>Properties of the worker manager\<close>

lemma positive_not_Clean:
  "0 < sint (StashCount st) \<or> 0 < sint (UnpushedCommits st) \<Longrightarrow> \<not> Clean st"
  by (auto simp: Clean_def)

lemma Remove_force_blocks:
  assumes "exists_polecat m name" and "CheckUncommittedWork g = Inr st"
    and "0 < sint (StashCount st) \<or> 0 < sint (UnpushedCommits st)"
  shows "RemoveWithOptions g io m name True False = (Some (UncommittedWorkError name st), m)"
  using assms positive_not_Clean [OF assms(3)] by (simp add: RemoveWithOptions_def)

lemma Remove_force_relaxed:
  assumes "exists_polecat m name" and "CheckUncommittedWork g = Inr st"
    and "\<not> (0 < sint (StashCount st) \<or> 0 < sint (UnpushedCommits st))"
  shows "fst (RemoveWithOptions g io m name True False) \<noteq> Some (UncommittedWorkError name st')"
    and "\<not> (WorktreeRemove_fails g \<and> RemoveAll_fails g) \<Longrightarrow>
         fst (RemoveWithOptions g io m name True False) = None"
  using assms by (auto simp: RemoveWithOptions_def Let_def)

lemma Remove_plain_blocks:
  assumes "exists_polecat m name" and "CheckUncommittedWork g = Inr st" and "\<not> Clean st"
  shows "RemoveWithOptions g io m name False False = (Some (UncommittedWorkError name st), m)"
  using assms by (simp add: RemoveWithOptions_def)

lemma Remove_nuclear:
  "fst (RemoveWithOptions g io m name force True) \<noteq> Some (UncommittedWorkError name st')"
  by (auto simp: RemoveWithOptions_def Let_def)

lemma Recreate_force_never_blocks:
  "fst (Recreate g m name True) \<noteq> Inl (UncommittedWorkError name st')"
  by (auto simp: Recreate_def Let_def split: sum.splits)

lemma Recreate_plain_blocks:
  assumes "exists_polecat m name" and "CheckUncommittedWork g = Inr st" and "\<not> Clean st"
  shows "Recreate g m name False = (Inl (UncommittedWorkError name st), m)"
  using assms by (simp add: Recreate_def)

text \<open>
  Claim C7, as amended. For a worker that exists and a git status that could be read:
  \<^verbatim>\<open>RemoveWithOptions\<close> with \<^verbatim>\<open>force\<close> and without \<^verbatim>\<open>nuclear\<close> refuses with the
  uncommitted-work error when the worktree has stashes or unpushed commits, and does not
  refuse on uncommitted changes alone (it goes on to remove the worktree); without
  \<^verbatim>\<open>force\<close> it refuses on any status that is not clean; with \<^verbatim>\<open>nuclear\<close> it never
  refuses for uncommitted work. \<^verbatim>\<open>Recreate\<close> with \<^verbatim>\<open>force\<close> makes no check at all and
  never refuses for uncommitted work, whether changes, stashes or unpushed commits;
  without \<^verbatim>\<open>force\<close> it refuses on any status that is not clean.
\<close>

theorem force_asymmetry:
  "exists_polecat m name \<and> CheckUncommittedWork g = Inr st \<longrightarrow>
     ((0 < sint (StashCount st) \<or> 0 < sint (UnpushedCommits st)) \<longrightarrow>
        RemoveWithOptions g io m name True False = (Some (UncommittedWorkError name st), m))
   \<and> (\<not> (0 < sint (StashCount st) \<or> 0 < sint (UnpushedCommits st)) \<longrightarrow>
        fst (RemoveWithOptions g io m name True False) \<noteq> Some (UncommittedWorkError name st)
        \<and> (\<not> (WorktreeRemove_fails g \<and> RemoveAll_fails g) \<longrightarrow>
             fst (RemoveWithOptions g io m name True False) = None))
   \<and> (\<not> Clean st \<longrightarrow>
        RemoveWithOptions g io m name False False = (Some (UncommittedWorkError name st), m))
   \<and> fst (RemoveWithOptions g io m name force True) \<noteq> Some (UncommittedWorkError name st)
   \<and> fst (Recreate g m name True) \<noteq> Inl (UncommittedWorkError name st)
   \<and> (\<not> Clean st \<longrightarrow> Recreate g m name False = (Inl (UncommittedWorkError name st), m))"
  using Remove_force_blocks [of m name g st io] Remove_force_relaxed(1) [where m=m and name=name and g=g and st=st and io=io and st'=st]
    Remove_force_relaxed(2) [where m=m and name=name and g=g and st=st and io=io]
    Remove_plain_blocks [of m name g st io] Remove_nuclear [of g io m name force st]
    Recreate_force_never_blocks [of g m name st] Recreate_plain_blocks [of m name g st]
  by blast

lemma rig_one_exists: "exists_polecat rig_one ''furiosa''"
  by (simp add: exists_polecat_def rig_one_def)

lemma git_ok_check: "CheckUncommittedWork (git_ok st) = Inr st"
  by (simp add: git_ok_def)

theorem force_asymmetry_witness:
  "exists_polecat rig_one ''furiosa'' \<and> CheckUncommittedWork (git_ok one_stash) = Inr one_stash
   \<and> 0 < sint (StashCount one_stash) \<and> \<not> Clean one_stash
   \<and> RemoveWithOptions (git_ok one_stash) reliable_io rig_one ''furiosa'' True False
       = (Some (UncommittedWorkError ''furiosa'' one_stash), rig_one)
   \<and> fst (Recreate (git_ok one_stash) rig_one ''furiosa'' True)
       \<noteq> Inl (UncommittedWorkError ''furiosa'' one_stash)
   \<and> Recreate (git_ok one_stash) rig_one ''furiosa'' False
       = (Inl (UncommittedWorkError ''furiosa'' one_stash), rig_one)
   \<and> \<not> (0 < sint (StashCount only_changes) \<or> 0 < sint (UnpushedCommits only_changes))
   \<and> fst (RemoveWithOptions (git_ok only_changes) reliable_io rig_one ''furiosa'' True False)
       = None"
proof -
  have h: "exists_polecat rig_one ''furiosa'' \<and> CheckUncommittedWork (git_ok one_stash) = Inr one_stash"
    by (simp add: rig_one_exists git_ok_check)
  have h2: "exists_polecat rig_one ''furiosa''
      \<and> CheckUncommittedWork (git_ok only_changes) = Inr only_changes"
    by (simp add: rig_one_exists git_ok_check)
  have s: "0 < sint (StashCount one_stash)" by (simp add: one_stash_def)
  have nc: "\<not> Clean one_stash" by (simp add: Clean_def one_stash_def)
  have oc: "\<not> (0 < sint (StashCount only_changes) \<or> 0 < sint (UnpushedCommits only_changes))"
    by (simp add: only_changes_def)
  have ok: "\<not> (WorktreeRemove_fails (git_ok only_changes) \<and> RemoveAll_fails (git_ok only_changes))"
    by (simp add: git_ok_def)
  note T = force_asymmetry [of rig_one "''furiosa''" "git_ok one_stash" one_stash reliable_io True,
      THEN mp, OF h]
  note U = force_asymmetry [of rig_one "''furiosa''" "git_ok only_changes" only_changes reliable_io
      True, THEN mp, OF h2]
  have 1: "RemoveWithOptions (git_ok one_stash) reliable_io rig_one ''furiosa'' True False
       = (Some (UncommittedWorkError ''furiosa'' one_stash), rig_one)"
    using T s by blast
  have 2: "fst (Recreate (git_ok one_stash) rig_one ''furiosa'' True)
       \<noteq> Inl (UncommittedWorkError ''furiosa'' one_stash)"
    using T by blast
  have 3: "Recreate (git_ok one_stash) rig_one ''furiosa'' False
       = (Inl (UncommittedWorkError ''furiosa'' one_stash), rig_one)"
    using T nc by blast
  have 4: "fst (RemoveWithOptions (git_ok only_changes) reliable_io rig_one ''furiosa'' True False)
       = None"
    using U oc ok by blast
  from h s nc 1 2 3 oc 4 show ?thesis by blast
qed

lemma rig_one_fields: "rig_Name rig_one = ''rig''" "rig_Path rig_one = ''/town/rig''"
  by (simp_all add: rig_one_def)

text \<open>
  The claim as written says that \<^verbatim>\<open>Recreate\<close> with \<^verbatim>\<open>force\<close> still blocks on
  uncommitted work. With uncommitted changes in the worktree, \<^verbatim>\<open>Recreate\<close> with
  \<^verbatim>\<open>force\<close> returns the fresh worker; it is \<^verbatim>\<open>Recreate\<close> without \<^verbatim>\<open>force\<close> that blocks.
\<close>

theorem Recreate_force_counterexample:
  "exists_polecat rig_one ''furiosa''
   \<and> CheckUncommittedWork (git_ok only_changes) = Inr only_changes
   \<and> HasUncommittedChanges only_changes \<and> \<not> Clean only_changes
   \<and> Recreate (git_ok only_changes) rig_one ''furiosa'' True = (Inr fresh_furiosa, rig_one)
   \<and> Recreate (git_ok only_changes) rig_one ''furiosa'' False
       = (Inl (UncommittedWorkError ''furiosa'' only_changes), rig_one)"
  by (simp add: Recreate_def rig_one_exists git_ok_def only_changes_def Clean_def
      fresh_furiosa_def polecatDir_def rig_one_fields)


section \<open>Properties of the merge engine\<close>

subsection \<open>The test step\<close>

lemma loop_stop:
  "\<not> int attempt \<le> sint maxRetries \<Longrightarrow>
   runTests_loop runs maxRetries attempt lastErr started
     = (no_result\<lparr> Success := False, TestsFailed := True,
                     Error := ''tests failed after '' @ fmt_d maxRetries @ '' attempts: ''
                              @ lastErr \<rparr>, started)"
  by (subst runTests_loop.simps) simp

lemma loop_ok:
  "int attempt \<le> sint maxRetries \<Longrightarrow> run_ok (runs attempt) \<Longrightarrow>
   runTests_loop runs maxRetries attempt lastErr started
     = (no_result\<lparr>Success := True\<rparr>, Suc started)"
  by (subst runTests_loop.simps) simp

lemma loop_cancel:
  "int attempt \<le> sint maxRetries \<Longrightarrow> \<not> run_ok (runs attempt) \<Longrightarrow>
   ctx_canceled (runs attempt) \<Longrightarrow>
   runTests_loop runs maxRetries attempt lastErr started
     = (no_result\<lparr>Success := False, Error := ''test run canceled''\<rparr>, Suc started)"
  by (subst runTests_loop.simps) simp

lemma loop_next:
  "int attempt \<le> sint maxRetries \<Longrightarrow> \<not> run_ok (runs attempt) \<Longrightarrow>
   \<not> ctx_canceled (runs attempt) \<Longrightarrow>
   runTests_loop runs maxRetries attempt lastErr started
     = runTests_loop runs maxRetries (Suc attempt) (run_error (runs attempt)) (Suc started)"
  by (subst runTests_loop.simps) simp

lemmas loop_steps = loop_stop loop_ok loop_cancel loop_next

lemma runTests_loop_started:
  "started \<le> snd (runTests_loop runs maxRetries attempt lastErr started)
   \<and> int (snd (runTests_loop runs maxRetries attempt lastErr started))
        \<le> int started + max 0 (sint maxRetries + 1 - int attempt)"
proof (induction runs maxRetries attempt lastErr started rule: runTests_loop.induct)
  case (1 runs maxRetries attempt lastErr started)
  show ?case
  proof (cases "int attempt \<le> sint maxRetries")
    case False
    then show ?thesis by (simp add: loop_stop)
  next
    case True
    show ?thesis
    proof (cases "run_ok (runs attempt)")
      case ok: True
      with True show ?thesis by (simp add: loop_ok)
    next
      case nok: False
      show ?thesis
      proof (cases "ctx_canceled (runs attempt)")
        case True
        with nok \<open>int attempt \<le> sint maxRetries\<close> show ?thesis by (simp add: loop_cancel)
      next
        case False
        with True nok "1.IH" show ?thesis by (simp add: loop_next)
      qed
    qed
  qed
qed

lemma runTests_loop_canceled_flag:
  "Success (fst (runTests_loop runs maxRetries attempt lastErr started))
   \<or> (Error (fst (runTests_loop runs maxRetries attempt lastErr started)) = ''test run canceled''
       \<and> \<not> TestsFailed (fst (runTests_loop runs maxRetries attempt lastErr started)))
   \<or> (Error (fst (runTests_loop runs maxRetries attempt lastErr started)) \<noteq> ''test run canceled''
       \<and> TestsFailed (fst (runTests_loop runs maxRetries attempt lastErr started)))"
proof (induction runs maxRetries attempt lastErr started rule: runTests_loop.induct)
  case (1 runs maxRetries attempt lastErr started)
  show ?case
  proof (cases "int attempt \<le> sint maxRetries")
    case False
    then show ?thesis by (simp add: loop_stop no_result_def)
  next
    case True
    show ?thesis
    proof (cases "run_ok (runs attempt)")
      case ok: True
      with True show ?thesis by (simp add: loop_ok no_result_def)
    next
      case nok: False
      show ?thesis
      proof (cases "ctx_canceled (runs attempt)")
        case True
        with nok \<open>int attempt \<le> sint maxRetries\<close> show ?thesis
          by (simp add: loop_cancel no_result_def)
      next
        case False
        with True nok "1.IH" show ?thesis by (simp add: loop_next)
      qed
    qed
  qed
qed

lemma runTests_loop_cancel_at:
  "attempt \<le> k \<Longrightarrow> int k \<le> sint maxRetries \<Longrightarrow>
   (\<forall>j. attempt \<le> j \<and> j < k \<longrightarrow> \<not> run_ok (runs j) \<and> \<not> ctx_canceled (runs j)) \<Longrightarrow>
   \<not> run_ok (runs k) \<Longrightarrow> ctx_canceled (runs k) \<Longrightarrow>
   runTests_loop runs maxRetries attempt lastErr started
     = (no_result\<lparr>Success := False, Error := ''test run canceled''\<rparr>, started + (k - attempt) + 1)"
proof (induction runs maxRetries attempt lastErr started rule: runTests_loop.induct)
  case (1 runs maxRetries attempt lastErr started)
  show ?case
  proof (cases "attempt = k")
    case True
    with "1.prems" show ?thesis by (simp add: loop_cancel)
  next
    case False
    with "1.prems" have lt: "attempt < k" by simp
    with "1.prems" have f: "\<not> run_ok (runs attempt)" "\<not> ctx_canceled (runs attempt)" by auto
    from lt "1.prems" have c: "int attempt \<le> sint maxRetries" by simp
    have "runTests_loop runs maxRetries (Suc attempt) (run_error (runs attempt)) (Suc started)
      = (no_result\<lparr>Success := False, Error := ''test run canceled''\<rparr>,
         Suc started + (k - Suc attempt) + 1)"
      using "1.IH" c f lt "1.prems" by simp
    with c f lt show ?thesis by (simp add: loop_next)
  qed
qed

lemma runTests_loop_all_fail:
  "(\<forall>j. attempt \<le> j \<and> int j \<le> sint maxRetries \<longrightarrow> \<not> run_ok (runs j) \<and> \<not> ctx_canceled (runs j)) \<Longrightarrow>
   TestsFailed (fst (runTests_loop runs maxRetries attempt lastErr started))
   \<and> \<not> Success (fst (runTests_loop runs maxRetries attempt lastErr started))
   \<and> int (snd (runTests_loop runs maxRetries attempt lastErr started))
        = int started + max 0 (sint maxRetries + 1 - int attempt)"
proof (induction runs maxRetries attempt lastErr started rule: runTests_loop.induct)
  case (1 runs maxRetries attempt lastErr started)
  show ?case
  proof (cases "int attempt \<le> sint maxRetries")
    case False
    then show ?thesis by (simp add: loop_stop no_result_def)
  next
    case True
    with "1.prems" have f: "\<not> run_ok (runs attempt)" "\<not> ctx_canceled (runs attempt)" by auto
    have "TestsFailed (fst (runTests_loop runs maxRetries (Suc attempt) (run_error (runs attempt)) (Suc started)))
   \<and> \<not> Success (fst (runTests_loop runs maxRetries (Suc attempt) (run_error (runs attempt)) (Suc started)))
   \<and> int (snd (runTests_loop runs maxRetries (Suc attempt) (run_error (runs attempt)) (Suc started)))
        = int (Suc started) + max 0 (sint maxRetries + 1 - int (Suc attempt))"
      using "1.IH" True f "1.prems" by simp
    with True f show ?thesis by (simp add: loop_next)
  qed
qed

lemma runTests_loop_runs_once:
  "int attempt \<le> sint maxRetries \<Longrightarrow>
   Suc started \<le> snd (runTests_loop runs maxRetries attempt lastErr started)"
proof -
  assume a: "int attempt \<le> sint maxRetries"
  show ?thesis
  proof (cases "run_ok (runs attempt)")
    case True
    with a show ?thesis by (simp add: loop_ok)
  next
    case nok: False
    show ?thesis
    proof (cases "ctx_canceled (runs attempt)")
      case True
      with a nok show ?thesis by (simp add: loop_cancel)
    next
      case False
      with a nok show ?thesis
        using runTests_loop_started
          [of "Suc started" runs maxRetries "Suc attempt" "run_error (runs attempt)"]
        by (simp add: loop_next)
    qed
  qed
qed

lemma runTests_attempts:
  assumes "TestCommand cfg \<noteq> []"
  shows "1 \<le> snd (runTests cfg runs)"
    and "int (snd (runTests cfg runs)) \<le> max 1 (sint (RetryFlakyTests cfg))"
proof -
  let ?m = "if sint (RetryFlakyTests cfg) < 1 then 1 else RetryFlakyTests cfg"
  have m: "sint ?m = max 1 (sint (RetryFlakyTests cfg))" by simp
  have r: "runTests cfg runs = runTests_loop runs ?m 1 ''<nil>'' 0"
    using assms by (simp add: runTests_def)
  have "int 1 \<le> sint ?m" by (simp add: m del: if_split)
  from runTests_loop_runs_once [OF this, of 0 runs "''<nil>''"]
  show "1 \<le> snd (runTests cfg runs)" by (simp add: r del: if_split)
  from runTests_loop_started [of 0 runs ?m 1 "''<nil>''"]
  have "int (snd (runTests_loop runs ?m 1 ''<nil>'' 0)) \<le> max 0 (sint ?m)" by simp
  then show "int (snd (runTests cfg runs)) \<le> max 1 (sint (RetryFlakyTests cfg))"
    unfolding r m by simp
qed

lemma runTests_cancel_or_fail:
  "Success (fst (runTests cfg runs))
   \<or> (Error (fst (runTests cfg runs)) = ''test run canceled''
       \<and> \<not> TestsFailed (fst (runTests cfg runs)))
   \<or> (Error (fst (runTests cfg runs)) \<noteq> ''test run canceled''
       \<and> TestsFailed (fst (runTests cfg runs)))"
proof (cases "TestCommand cfg = []")
  case True
  then show ?thesis by (simp add: runTests_def no_result_def)
next
  case False
  then show ?thesis
    using runTests_loop_canceled_flag by (simp add: runTests_def Let_def del: if_split)
qed

lemma runTests_canceled_first:
  assumes "TestCommand cfg \<noteq> []" and "\<not> run_ok (runs 1)" and "ctx_canceled (runs 1)"
  shows "runTests cfg runs = (no_result\<lparr>Success := False, Error := ''test run canceled''\<rparr>, 1)"
proof -
  let ?m = "if sint (RetryFlakyTests cfg) < 1 then 1 else RetryFlakyTests cfg"
  have "int 1 \<le> sint ?m" by simp
  from loop_cancel [of 1 ?m runs "''<nil>''" 0, OF this assms(2,3)] assms(1)
  show ?thesis by (simp add: runTests_def del: if_split)
qed

lemma doMerge_tests_unsuccessful:
  assumes "git_BranchExists g = Inr True" and "git_Checkout g = None"
    and "git_CheckConflicts g = Inr []" and "RunTests cfg" and "TestCommand cfg \<noteq> []"
    and "\<not> Success (fst (runTests cfg (test_runs g)))"
  shows "doMerge cfg g branch target sourceIssue
     = Inr (no_result\<lparr>Success := False, TestsFailed := True,
                      Error := Error (fst (runTests cfg (test_runs g)))\<rparr>)"
  using assms by (simp add: doMerge_def Let_def)

lemma cfg_tests_fields:
  "RunTests cfg_tests" "TestCommand cfg_tests = ''make test''" "RetryFlakyTests cfg_tests = 3"
  by (simp_all add: cfg_tests_def DefaultMergeQueueConfig_def)

lemma git_mergeable_fields:
  "git_BranchExists (git_mergeable runs) = Inr True" "git_Checkout (git_mergeable runs) = None"
  "git_CheckConflicts (git_mergeable runs) = Inr []" "test_runs (git_mergeable runs) = runs"
  by (simp_all add: git_mergeable_def)

lemma failed_run_fields: "\<not> run_ok failed_run" "\<not> ctx_canceled failed_run"
  "run_error failed_run = ''exit status 1''"
  by (simp_all add: failed_run_def)

lemma runTests_three_failures:
  "runTests cfg_tests (\<lambda>k. failed_run)
     = (no_result\<lparr>Success := False, TestsFailed := True,
                    Error := ''tests failed after 3 attempts: exit status 1''\<rparr>, 3)"
proof -
  have m: "sint (3 :: go_int) = 3" by simp
  have 1: "runTests_loop (\<lambda>k. failed_run) 3 1 ''<nil>'' 0
      = runTests_loop (\<lambda>k. failed_run) 3 2 ''exit status 1'' 1"
    using loop_next [of 1 3 "\<lambda>k. failed_run" "''<nil>''" 0]
    by (simp add: failed_run_fields m numeral_2_eq_2)
  have 2: "runTests_loop (\<lambda>k. failed_run) 3 2 ''exit status 1'' 1
      = runTests_loop (\<lambda>k. failed_run) 3 3 ''exit status 1'' 2"
    using loop_next [of 2 3 "\<lambda>k. failed_run" "''exit status 1''" 1]
    by (simp add: failed_run_fields m numeral_3_eq_3 numeral_2_eq_2)
  have 3: "runTests_loop (\<lambda>k. failed_run) 3 3 ''exit status 1'' 2
      = runTests_loop (\<lambda>k. failed_run) 3 4 ''exit status 1'' 3"
    using loop_next [of 3 3 "\<lambda>k. failed_run" "''exit status 1''" 2]
    by (simp add: failed_run_fields m eval_nat_numeral)
  have 4: "runTests_loop (\<lambda>k. failed_run) 3 4 ''exit status 1'' 3
      = (no_result\<lparr>Success := False, TestsFailed := True,
                    Error := ''tests failed after 3 attempts: exit status 1''\<rparr>, 3)"
    using loop_stop [of 4 3 "\<lambda>k. failed_run" "''exit status 1''" 3]
    by (simp add: m fmt_d_def digit_char_def)
  have r: "runTests cfg_tests (\<lambda>k. failed_run) = runTests_loop (\<lambda>k. failed_run) 3 1 ''<nil>'' 0"
    by (simp add: runTests_def cfg_tests_fields)
  show ?thesis by (simp only: r 1 2 3 4)
qed

text \<open>
  Claim C4. The claim holds of \<^verbatim>\<open>runTests\<close> alone: it runs the command at least once and
  at most \<^verbatim>\<open>max(1, retry_flaky_tests)\<close> times, and on cancelation it returns
  \<^verbatim>\<open>test run canceled\<close> without the flag \<^verbatim>\<open>TestsFailed\<close> (the lemmas above). The test
  step of \<^verbatim>\<open>doMerge\<close>, which is where the engine runs the tests when \<^verbatim>\<open>run_tests\<close> is
  enabled and a command is configured, wraps every unsuccessful result of \<^verbatim>\<open>runTests\<close>
  in a result with \<^verbatim>\<open>TestsFailed\<close> set. Evaluated on a run that the cancelation of the
  context has killed: \<^verbatim>\<open>runTests\<close> reports the cancelation without the flag,
  \<^verbatim>\<open>doMerge\<close> reports it with the flag, as it reports three plain failures of the
  tests, and the witness is told of a failure of type \<^verbatim>\<open>tests\<close>.
\<close>

theorem doMerge_cancel_sets_TestsFailed:
  "RunTests cfg_tests \<and> TestCommand cfg_tests = ''make test''
   \<and> ctx_canceled killed_run
   \<and> runTests cfg_tests (\<lambda>k. killed_run)
       = (no_result\<lparr>Success := False, Error := ''test run canceled''\<rparr>, 1)
   \<and> \<not> TestsFailed (fst (runTests cfg_tests (\<lambda>k. killed_run)))
   \<and> doMerge cfg_tests (git_mergeable (\<lambda>k. killed_run)) ''polecat/toast'' ''main'' ''gt-xyz''
       = Inr (no_result\<lparr>Success := False, TestsFailed := True, Error := ''test run canceled''\<rparr>)
   \<and> handleFailureFromQueue ''rig'' calm slot_free_state mr_toast
        (no_result\<lparr>Success := False, TestsFailed := True, Error := ''test run canceled''\<rparr>)
       = Inr (slot_free_state\<lparr>witness_inbox := [(''toast'', ''tests'', ''test run canceled'')]\<rparr>,
              mr_toast)
   \<and> doMerge cfg_tests (git_mergeable (\<lambda>k. failed_run)) ''polecat/toast'' ''main'' ''gt-xyz''
       = Inr (no_result\<lparr>Success := False, TestsFailed := True,
                Error := ''tests failed after 3 attempts: exit status 1''\<rparr>)"
proof -
  have k: "\<not> run_ok killed_run" "ctx_canceled killed_run" by (simp_all add: killed_run_def)
  have t: "TestCommand cfg_tests \<noteq> []" by (simp add: cfg_tests_fields)
  have r: "runTests cfg_tests (\<lambda>k. killed_run)
       = (no_result\<lparr>Success := False, Error := ''test run canceled''\<rparr>, 1)"
    by (rule runTests_canceled_first [OF t]) (simp_all add: k)
  have nf: "\<not> TestsFailed (fst (runTests cfg_tests (\<lambda>k. killed_run)))"
    by (simp add: r no_result_def)
  have ns: "\<not> Success (fst (runTests cfg_tests (test_runs (git_mergeable (\<lambda>k. killed_run)))))"
    by (simp add: git_mergeable_fields r)
  have d: "doMerge cfg_tests (git_mergeable (\<lambda>k. killed_run)) ''polecat/toast'' ''main'' ''gt-xyz''
       = Inr (no_result\<lparr>Success := False, TestsFailed := True, Error := ''test run canceled''\<rparr>)"
    using doMerge_tests_unsuccessful [OF git_mergeable_fields(1,2,3) cfg_tests_fields(1) t ns]
    by (simp add: git_mergeable_fields r)
  have h: "handleFailureFromQueue ''rig'' calm slot_free_state mr_toast
        (no_result\<lparr>Success := False, TestsFailed := True, Error := ''test run canceled''\<rparr>)
       = Inr (slot_free_state\<lparr>witness_inbox := [(''toast'', ''tests'', ''test run canceled'')]\<rparr>,
              mr_toast)"
    by (simp add: handleFailureFromQueue_def no_result_def calm_def slot_free_state_def
        mr_toast_def)
  have ns2: "\<not> Success (fst (runTests cfg_tests (test_runs (git_mergeable (\<lambda>k. failed_run)))))"
    by (simp add: git_mergeable_fields runTests_three_failures)
  have f: "doMerge cfg_tests (git_mergeable (\<lambda>k. failed_run)) ''polecat/toast'' ''main'' ''gt-xyz''
       = Inr (no_result\<lparr>Success := False, TestsFailed := True,
                Error := ''tests failed after 3 attempts: exit status 1''\<rparr>)"
    using doMerge_tests_unsuccessful [OF git_mergeable_fields(1,2,3) cfg_tests_fields(1) t ns2]
    by (simp add: git_mergeable_fields runTests_three_failures)
  from cfg_tests_fields k r nf d h f show ?thesis by simp
qed


subsection \<open>The conflict path\<close>


















section \<open>Properties of the keepalive state\<close>

lemma time_Sub_less:
  "minDuration < c \<Longrightarrow> c \<le> maxDuration \<Longrightarrow> time_Sub t u < c \<longleftrightarrow> t - u < c"
  by (auto simp: time_Sub_def minDuration_def maxDuration_def)

lemma Minute_bounds:
  "minDuration < 2 * Minute" "2 * Minute \<le> maxDuration"
  "minDuration < 5 * Minute" "5 * Minute \<le> maxDuration"
  by (simp_all add: Minute_def minDuration_def maxDuration_def)

lemma Minute_pos: "0 < Minute"
  by (simp add: Minute_def)

lemma Age_nil: "Age now None = 31536000 * 1000000000"
  by (simp add: Age_def Hour_def Minute_def)

lemma Age_less_2: "Age now (Some st) < 2 * Minute \<longleftrightarrow> now - Timestamp st < 2 * Minute"
  by (simp add: Age_def time_Sub_less Minute_bounds)

lemma Age_less_5: "Age now (Some st) < 5 * Minute \<longleftrightarrow> now - Timestamp st < 5 * Minute"
  by (simp add: Age_def time_Sub_less Minute_bounds)

text \<open>
  Claim C10. At one reading of the clock, exactly one of \<^verbatim>\<open>IsFresh\<close>, \<^verbatim>\<open>IsStale\<close> and
  \<^verbatim>\<open>IsVeryStale\<close> is true of a state pointer, nil included: fresh is an age under two
  minutes, stale an age of at least two and under five minutes, very stale an age of at
  least five minutes or the nil pointer. For a state that is not nil the age can be read
  as the distance of its timestamp from the clock.
\<close>

theorem freshness_exactly_one:
  "freshness_count now s = 1
   \<and> (IsFresh now s \<longleftrightarrow> s \<noteq> None \<and> Age now s < 2 * Minute)
   \<and> (IsStale now s \<longleftrightarrow> s \<noteq> None \<and> 2 * Minute \<le> Age now s \<and> Age now s < 5 * Minute)
   \<and> (IsVeryStale now s \<longleftrightarrow> s = None \<or> 5 * Minute \<le> Age now s)
   \<and> (IsVeryStale now None \<and> \<not> IsFresh now None \<and> \<not> IsStale now None)
   \<and> (IsFresh now (Some st) \<longleftrightarrow> now - Timestamp st < 2 * Minute)
   \<and> (IsStale now (Some st) \<longleftrightarrow>
        2 * Minute \<le> now - Timestamp st \<and> now - Timestamp st < 5 * Minute)
   \<and> (IsVeryStale now (Some st) \<longleftrightarrow> 5 * Minute \<le> now - Timestamp st)"
proof -
  have c: "freshness_count now s = 1"
    using Minute_pos
    by (cases s) (auto simp: freshness_count_def IsFresh_def IsStale_def IsVeryStale_def Let_def)
  have f: "IsFresh now (Some st) \<longleftrightarrow> now - Timestamp st < 2 * Minute"
    by (simp add: IsFresh_def Age_less_2)
  have t: "IsStale now (Some st) \<longleftrightarrow>
        2 * Minute \<le> now - Timestamp st \<and> now - Timestamp st < 5 * Minute"
    using Age_less_2 [of now st] Age_less_5 [of now st]
    by (auto simp: IsStale_def Let_def)
  have v: "IsVeryStale now (Some st) \<longleftrightarrow> 5 * Minute \<le> now - Timestamp st"
    using Age_less_5 [of now st] by (auto simp: IsVeryStale_def)
  have n: "IsVeryStale now None \<and> \<not> IsFresh now None \<and> \<not> IsStale now None"
    by (simp add: IsVeryStale_def IsFresh_def IsStale_def)
  have d: "(IsFresh now s \<longleftrightarrow> s \<noteq> None \<and> Age now s < 2 * Minute)
   \<and> (IsStale now s \<longleftrightarrow> s \<noteq> None \<and> 2 * Minute \<le> Age now s \<and> Age now s < 5 * Minute)
   \<and> (IsVeryStale now s \<longleftrightarrow> s = None \<or> 5 * Minute \<le> Age now s)"
    by (simp add: IsFresh_def IsStale_def IsVeryStale_def Let_def)
  from c d n f t v show ?thesis by blast
qed

theorem freshness_exactly_one_witness:
  "IsStale (1000 * Minute) (Some \<lparr>LastCommand = ''gt status'', Timestamp = 997 * Minute\<rparr>)
   \<and> \<not> IsFresh (1000 * Minute) (Some \<lparr>LastCommand = ''gt status'', Timestamp = 997 * Minute\<rparr>)
   \<and> \<not> IsVeryStale (1000 * Minute)
         (Some \<lparr>LastCommand = ''gt status'', Timestamp = 997 * Minute\<rparr>)
   \<and> freshness_count (1000 * Minute)
         (Some \<lparr>LastCommand = ''gt status'', Timestamp = 997 * Minute\<rparr>) = 1
   \<and> freshness_count (1000 * Minute) None = 1"
  using freshness_exactly_one
    [of "1000 * Minute" "Some \<lparr>LastCommand = ''gt status'', Timestamp = 997 * Minute\<rparr>"
        "\<lparr>LastCommand = ''gt status'', Timestamp = 997 * Minute\<rparr>"]
    freshness_exactly_one [of "1000 * Minute" None]
  by (simp add: Minute_def)

end
